theory Spec2Isabelle
  imports Main "HOL-Library.Word"
begin

section \<open>gechtest: the data model of \<^verbatim>\<open>include/gechtest.hpp\<close>\<close>

text \<open>
  The header declares two enumerations, two node classes and the class \<^verbatim>\<open>gech::test\<close>.
  The six comparison kinds and the unused seventh, \<^verbatim>\<open>MemLeak\<close>, are kept as declared.
\<close>

datatype test_types = Eq | UnEq | Gt | Lt | GEq | LEq | MemLeak

datatype test_results = Error | Success | Critical

text \<open>
  \<^verbatim>\<open>using function_test = void(*)();\<close> A value of this type is the null pointer or the
  address of a function; what the function does is given by a code table (see
  \<open>calculate_time\<close>).
\<close>

datatype function_test = Nullptr | Fn nat

text \<open>
  \<^verbatim>\<open>gech::test_log_node val;\<close> default-initialises the node: \<^verbatim>\<open>ms_took\<close> has the
  initialiser \<^verbatim>\<open>= 0\<close> and \<^verbatim>\<open>data\<close> is an empty string view, but \<^verbatim>\<open>result\<close>
  (an enum) and \<^verbatim>\<open>func\<close> (a pointer) have no initialiser and hold an indeterminate value
  until they are assigned. A scalar member is therefore a cell that is either indeterminate or
  known; evaluating an indeterminate cell is undefined behaviour.
\<close>

datatype 'a cell = Indeterminate | Known 'a

text \<open>
  \<^verbatim>\<open>std::source_location\<close>: its four observers. The default-constructed value is the one
  of libstdc++ (the library the header is written against, see \<^verbatim>\<open>std::chrono::_V2\<close>):
  empty names, line and column 0.
\<close>

record source_location =
  loc_file_name :: string
  loc_function_name :: string
  loc_line :: "32 word"
  loc_column :: "32 word"

definition default_location :: source_location where
  "default_location =
     \<lparr>loc_file_name = '''', loc_function_name = '''', loc_line = 0, loc_column = 0\<rparr>"

record test_rc_node =
  rc_name :: string
  rc_type :: string
  rc_location :: source_location

record test_log_node =
  ms_took :: "32 word"
  result :: "test_results cell"
  data :: string
  func :: "function_test cell"

text \<open>
  The class \<^verbatim>\<open>gech::test\<close>. \<^verbatim>\<open>int rc\<close> and \<^verbatim>\<open>unsigned errors\<close> are 32-bit words
  (\<open>rc\<close> read as two's complement); the member \<^verbatim>\<open>func\<close> is named \<open>test_func\<close> here,
  the node's member keeps the name \<open>func\<close>. \<open>main_ms\<close> is a time point in nanoseconds.
\<close>

record test =
  line :: "32 word"
  column :: "32 word"
  file_name :: string
  function_name :: string
  rc :: "32 word"
  errors :: "32 word"
  infos :: "test_log_node list"
  rc_infos :: "test_rc_node list"
  test_func :: function_test
  current_location :: source_location
  main_ms :: int

text \<open>
  What lies outside the object: the stream \<^verbatim>\<open>std::cout\<close>, as the list of items written
  by \<^verbatim>\<open><<\<close> so far, and the clock. In libstdc++ \<^verbatim>\<open>high_resolution_clock\<close> is
  \<^verbatim>\<open>system_clock\<close>, so there is one clock: \<open>clock w n\<close> is the result of the \<open>n\<close>-th
  call of \<^verbatim>\<open>now()\<close>, in nanoseconds, and \<open>ticks\<close> counts the calls made.
  \<open>test_reg\<close> is the global object the macro \<^verbatim>\<open>TEST\<close> declares.
\<close>

datatype out_item = Text string | Ch char | UInt "32 word" | Long int

record world =
  test_reg :: test
  cout :: "out_item list"
  clock :: "nat \<Rightarrow> int"
  ticks :: nat

text \<open>
  A call either returns, or the process stops in \<^verbatim>\<open>std::abort()\<close> (with the world as it
  was at that moment), or the C++ standard gives the call no meaning.
\<close>

datatype halt = Aborted world | Undefined

definition and_then :: "halt + 'a \<Rightarrow> ('a \<Rightarrow> halt + 'b) \<Rightarrow> halt + 'b" where
  "and_then r k = (case r of Inl h \<Rightarrow> Inl h | Inr x \<Rightarrow> k x)"

definition print :: "out_item list \<Rightarrow> world \<Rightarrow> world" where
  "print items w = w\<lparr>cout := cout w @ items\<rparr>"

definition now :: "world \<Rightarrow> int \<times> world" where
  "now w = (clock w (ticks w), w\<lparr>ticks := Suc (ticks w)\<rparr>)"

section \<open>The operations of \<^verbatim>\<open>gech::test\<close>\<close>

definition fill_infos :: "source_location \<Rightarrow> test \<Rightarrow> test" where
  "fill_infos location t =
     t\<lparr>line := loc_line location,
       column := loc_column location,
       file_name := loc_file_name location,
       function_name := loc_function_name location\<rparr>"

text \<open>
  The constructor: the member initialisers (\<open>rc = 0\<close>, \<open>errors = 0\<close>, empty vectors, a
  default \<open>current_location\<close>, \<open>main_ms\<close> read from the clock), then \<open>fill_infos()\<close>
  whose default argument is the location of that call inside the header (\<open>here\<close>).
\<close>

definition new_test :: "function_test \<Rightarrow> source_location \<Rightarrow> int \<Rightarrow> test" where
  "new_test fn here t0 =
     fill_infos here
       \<lparr>line = 0, column = 0, file_name = '''', function_name = '''',
        rc = 0, errors = 0, infos = [], rc_infos = [],
        test_func = fn, current_location = default_location, main_ms = t0\<rparr>"

definition since_time :: "world \<Rightarrow> int \<times> world" where
  "since_time w = (let (t, w1) = now w in (t - main_ms (test_reg w1), w1))"

definition summary :: "world \<Rightarrow> world" where
  "summary w =
     (let (ns, w1) = since_time w in
      print [Text ''\<newline>[SUMMARY]\<newline>'',
             Text ''File: '',
             Text (loc_file_name (current_location (test_reg w1))),
             Ch (CHR ''\<newline>''),
             Text ''Error/s: '',
             UInt (errors (test_reg w1)),
             Ch (CHR ''\<newline>''),
             Long ns,
             Text ''ns\<newline>''] w1)"

text \<open>
  \<open>calculate_time\<close>: read the clock, call \<open>func()\<close>, read the clock again; the
  nanosecond count is converted to \<^verbatim>\<open>unsigned\<close>, that is, taken modulo \<open>2 ^ 32\<close>.
  \<open>code f\<close> is what the function at address \<open>f\<close> does to the world.
\<close>

definition calculate_time ::
  "(nat \<Rightarrow> world \<Rightarrow> halt + world) \<Rightarrow> function_test \<Rightarrow> world \<Rightarrow> halt + (32 word \<times> world)"
where
  "calculate_time code fn w =
     (let (ms, w1) = now w in
      case fn of
        Nullptr \<Rightarrow> Inl Undefined
      | Fn f \<Rightarrow>
          (case code f w1 of
             Inl h \<Rightarrow> Inl h
           | Inr w2 \<Rightarrow> (let (t, w3) = now w2 in Inr (word_of_int (t - ms), w3))))"

definition test_function :: "function_test \<Rightarrow> world \<Rightarrow> world" where
  "test_function tst w =
     (let val = \<lparr>ms_took = 0, result = Indeterminate, data = '''', func = Known tst\<rparr>
      in w\<lparr>test_reg := (test_reg w)\<lparr>infos := infos (test_reg w) @ [val]\<rparr>\<rparr>)"

definition put_log :: "test_results \<Rightarrow> string \<Rightarrow> world \<Rightarrow> test_log_node \<times> world" where
  "put_log res message w =
     (let val = \<lparr>ms_took = 0, result = Known res, data = message, func = Indeterminate\<rparr>
      in (val, w\<lparr>test_reg := (test_reg w)\<lparr>infos := infos (test_reg w) @ [val]\<rparr>\<rparr>))"

definition draw_case :: "test_log_node \<Rightarrow> world \<Rightarrow> halt + world" where
  "draw_case node w =
     (if result node = Indeterminate then Inl Undefined
      else if result node = Known Critical then Inr (print [Text ''[CRITICAL]: ''] w)
      else if result node = Known Success then Inr (print [Text ''[SUCCESS]: ''] w)
      else Inr ((print [Text ''[FAILED]: ''] w)
                  \<lparr>test_reg := (test_reg w)\<lparr>errors := errors (test_reg w) + 1\<rparr>\<rparr>))"

text \<open>
  \<open>put\<close> ignores its arguments (the parameter pack \<^verbatim>\<open>message\<close> is never used): it
  draws and prints the last node of the ledger. \<^verbatim>\<open>back()\<close> of an empty vector is
  undefined.
\<close>

definition put :: "'m \<Rightarrow> world \<Rightarrow> halt + world" where
  "put message w =
     (if infos (test_reg w) = [] then Inl Undefined
      else
        let info = last (infos (test_reg w)) in
        and_then (draw_case info w) (\<lambda>w1.
          Inr (print [Text ''('',
                      Text (loc_file_name (current_location (test_reg w1))),
                      Text '', '',
                      UInt (loc_line (current_location (test_reg w1))),
                      Text '':'',
                      UInt (loc_column (current_location (test_reg w1))),
                      Text '':'',
                      UInt (ms_took info),
                      Text ''ns'',
                      Text '') ['',
                      Text (loc_function_name (current_location (test_reg w1))),
                      Text ''] -> '',
                      Text (data info),
                      Ch (CHR ''\<newline>'')] w1)))"

text \<open>
  \<open>assert\<close> is a template over the two operand types; the six operators it applies are
  whatever the operand types define, so they are a parameter of the model.
\<close>

record ('a, 'b) comparisons =
  op_eq :: "'a \<Rightarrow> 'b \<Rightarrow> bool"
  op_ne :: "'a \<Rightarrow> 'b \<Rightarrow> bool"
  op_gt :: "'a \<Rightarrow> 'b \<Rightarrow> bool"
  op_lt :: "'a \<Rightarrow> 'b \<Rightarrow> bool"
  op_ge :: "'a \<Rightarrow> 'b \<Rightarrow> bool"
  op_le :: "'a \<Rightarrow> 'b \<Rightarrow> bool"

text \<open>
  Every branch of \<open>assert\<close> evaluates \<^verbatim>\<open>this->put(this->put_log(res, message).data)\<close>.
\<close>

definition record_and_put :: "test_results \<Rightarrow> string \<Rightarrow> world \<Rightarrow> halt + world" where
  "record_and_put res message w = (let (val, w1) = put_log res message w in put (data val) w1)"

definition assert ::
  "('a, 'b) comparisons \<Rightarrow> test_types \<Rightarrow> 'a \<Rightarrow> 'b \<Rightarrow> source_location \<Rightarrow> world \<Rightarrow> halt + world"
where
  "assert ops type val val2 location w =
     (let w0 = w\<lparr>test_reg := (test_reg w)\<lparr>current_location := location\<rparr>\<rparr> in
      case type of
        Eq \<Rightarrow>
          if op_eq ops val val2 then record_and_put Success ''OK'' w0
          else record_and_put Error ''Given values are not equal, expected equal'' w0
      | UnEq \<Rightarrow>
          if op_ne ops val val2 then record_and_put Success ''OK'' w0
          else record_and_put Error ''Given values are equal, expected not equal'' w0
      | Gt \<Rightarrow>
          if op_gt ops val val2 then record_and_put Success ''OK'' w0
          else record_and_put Error ''Given values are not greater, expected greater'' w0
      | Lt \<Rightarrow>
          if op_lt ops val val2 then record_and_put Success ''OK'' w0
          else record_and_put Error ''Given values are greater, expected not greater'' w0
      | GEq \<Rightarrow>
          if op_ge ops val val2 then record_and_put Success ''OK'' w0
          else record_and_put Error
                 ''Given values are not greater or equal, expected greater or equal'' w0
      | LEq \<Rightarrow>
          if op_le ops val val2 then record_and_put Success ''OK'' w0
          else record_and_put Error
                 ''Given values are greater or equal, expected not greater or equal'' w0
      | MemLeak \<Rightarrow> Inr w0)"

text \<open>
  \<open>assert_rc\<close>: the guard. Its \<open>location\<close> is only handed to \<open>put\<close>, which ignores it.
\<close>

definition assert_rc :: "source_location \<Rightarrow> world \<Rightarrow> halt + world" where
  "assert_rc location w =
     (if rc (test_reg w) <s 0 then
        (let (val, w1) = put_log Critical ''(RC < 0) Deallocating not allocated value'' w in
         and_then (put (data val, location) w1) (\<lambda>w2. Inl (Aborted (summary w2))))
      else Inr w)"

definition assert_eq ::
  "('a, 'b) comparisons \<Rightarrow> 'a \<Rightarrow> 'b \<Rightarrow> source_location \<Rightarrow> world \<Rightarrow> halt + world" where
  "assert_eq ops val val2 location w = assert ops Eq val val2 location w"

definition assert_uneq ::
  "('a, 'b) comparisons \<Rightarrow> 'a \<Rightarrow> 'b \<Rightarrow> source_location \<Rightarrow> world \<Rightarrow> halt + world" where
  "assert_uneq ops val val2 location w = assert ops UnEq val val2 location w"

definition assert_gt ::
  "('a, 'b) comparisons \<Rightarrow> 'a \<Rightarrow> 'b \<Rightarrow> source_location \<Rightarrow> world \<Rightarrow> halt + world" where
  "assert_gt ops val val2 location w = assert ops Gt val val2 location w"

definition assert_lt ::
  "('a, 'b) comparisons \<Rightarrow> 'a \<Rightarrow> 'b \<Rightarrow> source_location \<Rightarrow> world \<Rightarrow> halt + world" where
  "assert_lt ops val val2 location w = assert ops Lt val val2 location w"

definition assert_geq ::
  "('a, 'b) comparisons \<Rightarrow> 'a \<Rightarrow> 'b \<Rightarrow> source_location \<Rightarrow> world \<Rightarrow> halt + world" where
  "assert_geq ops val val2 location w = assert ops GEq val val2 location w"

definition assert_leq ::
  "('a, 'b) comparisons \<Rightarrow> 'a \<Rightarrow> 'b \<Rightarrow> source_location \<Rightarrow> world \<Rightarrow> halt + world" where
  "assert_leq ops val val2 location w = assert ops LEq val val2 location w"

text \<open>The destructor: the guard, then the summary.\<close>

definition test_dtor :: "source_location \<Rightarrow> world \<Rightarrow> halt + world" where
  "test_dtor here w = and_then (assert_rc here w) (\<lambda>w1. Inr (summary w1))"

text \<open>
  \<open>run_tests\<close>. In \<^verbatim>\<open>infos.back().ms_took = calculate_time(func)\<close> the right operand is
  evaluated first (C++17), so \<^verbatim>\<open>back()\<close> is taken of the ledger as the body left it;
  on an empty ledger it is undefined.

  The range-based loop fixes its end when it starts. One turn of it, at position \<open>i\<close>,
  compares \<^verbatim>\<open>test.func\<close> with \<^verbatim>\<open>nullptr\<close> (undefined on an indeterminate pointer), and
  on a non-null pointer times the call and stores the result in that node. A call that changes
  the size of the vector invalidates the loop's iterators: the loop has no meaning from there.
\<close>

definition set_ms_took :: "nat \<Rightarrow> 32 word \<Rightarrow> world \<Rightarrow> world" where
  "set_ms_took i d w =
     w\<lparr>test_reg := (test_reg w)
         \<lparr>infos := (infos (test_reg w))[i := (infos (test_reg w) ! i)\<lparr>ms_took := d\<rparr>]\<rparr>\<rparr>"

definition loop_turn ::
  "(nat \<Rightarrow> world \<Rightarrow> halt + world) \<Rightarrow> nat \<Rightarrow> world \<Rightarrow> halt + world" where
  "loop_turn code i w =
     (case func (infos (test_reg w) ! i) of
        Indeterminate \<Rightarrow> Inl Undefined
      | Known Nullptr \<Rightarrow> Inr w
      | Known (Fn f) \<Rightarrow>
          and_then (calculate_time code (Fn f) w) (\<lambda>(d, w1).
            if length (infos (test_reg w1)) \<noteq> length (infos (test_reg w)) then Inl Undefined
            else Inr (set_ms_took i d w1)))"

function run_loop ::
  "(nat \<Rightarrow> world \<Rightarrow> halt + world) \<Rightarrow> nat \<Rightarrow> nat \<Rightarrow> world \<Rightarrow> halt + world" where
  "run_loop code n i w =
     (if n \<le> i then Inr w
      else and_then (loop_turn code i w) (\<lambda>w1. run_loop code n (Suc i) w1))"
  by pat_completeness auto
termination
  by (relation "measure (\<lambda>(code, n, i, w). n - i)") auto

declare run_loop.simps [simp del]

definition run_tests :: "(nat \<Rightarrow> world \<Rightarrow> halt + world) \<Rightarrow> world \<Rightarrow> halt + world" where
  "run_tests code w =
     and_then (calculate_time code (test_func (test_reg w)) w) (\<lambda>(d, w1).
       if infos (test_reg w1) = [] then Inl Undefined
       else
         let w2 = set_ms_took (length (infos (test_reg w1)) - 1) d w1 in
         run_loop code (length (infos (test_reg w2))) 0 w2)"

section \<open>The macros\<close>

text \<open>
  \<^verbatim>\<open>TEST(case_name)\<close> declares the global \<open>test_reg\<close>; at program start nothing has
  been printed and the constructor makes the first reading of the clock.
\<close>

definition TEST :: "nat \<Rightarrow> source_location \<Rightarrow> (nat \<Rightarrow> int) \<Rightarrow> world" where
  "TEST case_name here clk =
     \<lparr>test_reg = new_test (Fn case_name) here (clk 0), cout = [], clock = clk, ticks = 1\<rparr>"

text \<open>
  \<^verbatim>\<open>TEST_MAIN\<close> is \<open>main\<close>: it runs the tests; when \<open>main\<close> returns, the global is
  destroyed.
\<close>

definition TEST_MAIN ::
  "(nat \<Rightarrow> world \<Rightarrow> halt + world) \<Rightarrow> source_location \<Rightarrow> world \<Rightarrow> halt + world" where
  "TEST_MAIN code here w = and_then (run_tests code w) (test_dtor here)"

text \<open>
  \<^verbatim>\<open>ALLOC\<close> and \<^verbatim>\<open>DEALLOC\<close>, without the \<^verbatim>\<open>new\<close> and \<^verbatim>\<open>delete\<close> they end with
  (the library tracks the balance only). \<^verbatim>\<open>++rc\<close> and \<^verbatim>\<open>--rc\<close> on an \<^verbatim>\<open>int\<close> are
  undefined where they would overflow.
\<close>

definition ALLOC :: "source_location \<Rightarrow> world \<Rightarrow> halt + world" where
  "ALLOC location w =
     and_then (assert_rc location w) (\<lambda>w1.
       if rc (test_reg w1) = 0x7FFFFFFF then Inl Undefined
       else Inr (w1\<lparr>test_reg := (test_reg w1)\<lparr>rc := rc (test_reg w1) + 1\<rparr>\<rparr>))"

definition DEALLOC :: "source_location \<Rightarrow> world \<Rightarrow> halt + world" where
  "DEALLOC location w =
     (if rc (test_reg w) = 0x80000000 then Inl Undefined
      else assert_rc location (w\<lparr>test_reg := (test_reg w)\<lparr>rc := rc (test_reg w) - 1\<rparr>\<rparr>))"

section \<open>Case bodies written with the library\<close>

text \<open>
  A case body, or a registered sub-function, that touches the test object only through the
  library is a sequence of these calls: the six assertions \<^verbatim>\<open>ASSERT_EQ\<close> ... \<^verbatim>\<open>ASSERT_LEQ\<close>
  (each is \<open>test_reg.assert_...\<close>), \<^verbatim>\<open>ALLOC\<close>, \<^verbatim>\<open>DEALLOC\<close> and
  \<^verbatim>\<open>test_reg.test_function(f)\<close>. A call that stops the process or has no meaning ends the
  body.
\<close>

datatype ('a, 'b) statement =
    Assert_eq 'a 'b source_location
  | Assert_uneq 'a 'b source_location
  | Assert_gt 'a 'b source_location
  | Assert_lt 'a 'b source_location
  | Assert_geq 'a 'b source_location
  | Assert_leq 'a 'b source_location
  | Alloc source_location
  | Dealloc source_location
  | Register function_test

fun run_statement ::
  "('a, 'b) comparisons \<Rightarrow> ('a, 'b) statement \<Rightarrow> world \<Rightarrow> halt + world" where
  "run_statement ops (Assert_eq val val2 location) w = assert_eq ops val val2 location w"
| "run_statement ops (Assert_uneq val val2 location) w = assert_uneq ops val val2 location w"
| "run_statement ops (Assert_gt val val2 location) w = assert_gt ops val val2 location w"
| "run_statement ops (Assert_lt val val2 location) w = assert_lt ops val val2 location w"
| "run_statement ops (Assert_geq val val2 location) w = assert_geq ops val val2 location w"
| "run_statement ops (Assert_leq val val2 location) w = assert_leq ops val val2 location w"
| "run_statement ops (Alloc location) w = ALLOC location w"
| "run_statement ops (Dealloc location) w = DEALLOC location w"
| "run_statement ops (Register tst) w = Inr (test_function tst w)"

fun run_body ::
  "('a, 'b) comparisons \<Rightarrow> ('a, 'b) statement list \<Rightarrow> world \<Rightarrow> halt + world" where
  "run_body ops [] w = Inr w"
| "run_body ops (s # ss) w = and_then (run_statement ops s w) (run_body ops ss)"

text \<open>
  The world a call leaves behind: the one it returns, or the one in which the process was
  aborted.
\<close>

definition world_of :: "halt + world \<Rightarrow> world option" where
  "world_of r =
     (case r of Inr w \<Rightarrow> Some w | Inl (Aborted w) \<Rightarrow> Some w | Inl Undefined \<Rightarrow> None)"

text \<open>
  The tally invariant of the code: \<open>errors\<close>, an \<^verbatim>\<open>unsigned\<close>, is the number of ledger nodes
  whose result is \<open>Error\<close>, as a 32-bit value.
\<close>

definition tally_inv :: "world \<Rightarrow> bool" where
  "tally_inv w =
     (errors (test_reg w) =
        of_nat (length (filter (\<lambda>node. result node = Known Error) (infos (test_reg w)))))"

text \<open>
  The invariant in the words of the specification: the tally is the number of nodes whose
  result is \<open>Error\<close> or \<open>Critical\<close>.
\<close>

definition claimed_tally_inv :: "world \<Rightarrow> bool" where
  "claimed_tally_inv w =
     (errors (test_reg w) =
        of_nat (length (filter (\<lambda>node. result node = Known Error \<or> result node = Known Critical)
                          (infos (test_reg w)))))"


text \<open>
  User functions that leave the nodes of the ledger alone: a call that returns with the ledger
  at its old length returns with the old ledger. Every function written with the library
  calls above is of this kind, since they only ever append.
\<close>

definition keeps_nodes :: "(nat \<Rightarrow> world \<Rightarrow> halt + world) \<Rightarrow> bool" where
  "keeps_nodes code =
     (\<forall>f u u'. code f u = Inr u' \<longrightarrow>
        length (infos (test_reg u')) = length (infos (test_reg u)) \<longrightarrow>
        infos (test_reg u') = infos (test_reg u))"
section \<open>The declaration site\<close>

text \<open>
  \<open>refill location w\<close> is the world \<open>w\<close> with the four members that \<open>fill_infos\<close> sets
  filled from another location; \<open>on_world g r\<close> applies \<open>g\<close> to the world a result holds.
\<close>

definition refill :: "source_location \<Rightarrow> world \<Rightarrow> world" where
  "refill location w = w\<lparr>test_reg := fill_infos location (test_reg w)\<rparr>"

definition on_world :: "(world \<Rightarrow> world) \<Rightarrow> halt + world \<Rightarrow> halt + world" where
  "on_world g r =
     (case r of
        Inr w \<Rightarrow> Inr (g w)
      | Inl (Aborted w) \<Rightarrow> Inl (Aborted (g w))
      | Inl Undefined \<Rightarrow> Inl Undefined)"

section \<open>Operand types and a sample case\<close>

text \<open>
  The built-in operators on \<^verbatim>\<open>int\<close> operands: equality, and the signed orderings of
  32-bit words.
\<close>

definition int_comparisons :: "(32 word, 32 word) comparisons" where
  "int_comparisons =
     \<lparr>op_eq = (\<lambda>a b. a = b), op_ne = (\<lambda>a b. a \<noteq> b),
      op_gt = (\<lambda>a b. b <s a), op_lt = (\<lambda>a b. a <s b),
      op_ge = (\<lambda>a b. b \<le>s a), op_le = (\<lambda>a b. a \<le>s b)\<rparr>"

text \<open>
  A clock whose \<open>n\<close>-th reading is \<open>1000 * n * n\<close> ns, the location of the \<open>fill_infos()\<close> call
  inside the header, a call site in a test file, and the world right after
  \<^verbatim>\<open>TEST(math)\<close> has been declared there.
\<close>

definition example_clock :: "nat \<Rightarrow> int" where
  "example_clock n = 1000 * int (n * n)"

definition header_site :: source_location where
  "header_site =
     \<lparr>loc_file_name = ''include/gechtest.hpp'',
      loc_function_name = ''gech::test::test(gech::function_test)'',
      loc_line = 95, loc_column = 29\<rparr>"

definition call_site :: source_location where
  "call_site =
     \<lparr>loc_file_name = ''math.cpp'', loc_function_name = ''void math()'',
      loc_line = 4, loc_column = 5\<rparr>"

definition example_case :: world where
  "example_case = TEST 0 header_site example_clock"

text \<open>
  The sample case with its counter already below zero (\<open>rc\<close> is a public member), and a case
  body: a failing and a passing assertion, then a \<^verbatim>\<open>DEALLOC\<close> with nothing allocated.
\<close>

definition negative_case :: world where
  "negative_case = example_case\<lparr>test_reg := (test_reg example_case)\<lparr>rc := - 1\<rparr>\<rparr>"

definition example_bodies :: "nat \<Rightarrow> (32 word, 32 word) statement list" where
  "example_bodies f =
     (if f = 0 then [Assert_gt 1 5 call_site, Assert_eq 4 4 call_site, Dealloc call_site]
      else [])"

text \<open>
  A runner: the case body registers a first sub-function, a null pointer and a second
  sub-function; the first sub-function is an \<^verbatim>\<open>ALLOC\<close>, the second a \<^verbatim>\<open>DEALLOC\<close>.
\<close>

definition runner_bodies :: "nat \<Rightarrow> (32 word, 32 word) statement list" where
  "runner_bodies f =
     (if f = 0 then [Register (Fn 1), Register Nullptr, Register (Fn 2)]
      else if f = 1 then [Alloc call_site]
      else if f = 2 then [Dealloc call_site]
      else [])"



text \<open>
  The scenario of the specification as a program: \<^verbatim>\<open>TEST(math)\<close> with the body
  \<^verbatim>\<open>ASSERT_EQ(2 + 2, 4) ASSERT_GT(1, 5)\<close>, and no other function.
\<close>

definition math_bodies :: "nat \<Rightarrow> (32 word, 32 word) statement list" where
  "math_bodies f =
     (if f = 0 then [Assert_eq (2 + 2) 4 call_site, Assert_gt 1 5 call_site] else [])"

definition math_code :: "nat \<Rightarrow> world \<Rightarrow> halt + world" where
  "math_code f = run_body int_comparisons (math_bodies f)"
section \<open>Basic facts\<close>

lemma example_case_simps:
  "test_reg example_case = new_test (Fn 0) header_site 0"
  "cout example_case = []"
  "ticks example_case = 1"
  "clock example_case = example_clock"
  by (simp_all add: example_case_def TEST_def example_clock_def)

lemma new_test_simps:
  "rc (new_test fn here t0) = 0"
  "errors (new_test fn here t0) = 0"
  "infos (new_test fn here t0) = []"
  "rc_infos (new_test fn here t0) = []"
  "test_func (new_test fn here t0) = fn"
  "current_location (new_test fn here t0) = default_location"
  "main_ms (new_test fn here t0) = t0"
  "line (new_test fn here t0) = loc_line here"
  "column (new_test fn here t0) = loc_column here"
  "file_name (new_test fn here t0) = loc_file_name here"
  "function_name (new_test fn here t0) = loc_function_name here"
  by (simp_all add: new_test_def fill_infos_def)

text \<open>
  Recording an outcome and putting it always returns: the node is appended, the tally grows
  only for \<open>Error\<close>, and one line is printed from \<open>current_location\<close>.
\<close>

lemma record_and_put_eq:
  "record_and_put res message w =
     Inr (w\<lparr>test_reg := (test_reg w)
              \<lparr>infos := infos (test_reg w) @
                 [\<lparr>ms_took = 0, result = Known res, data = message, func = Indeterminate\<rparr>],
               errors := errors (test_reg w) + (if res = Error then 1 else 0)\<rparr>,
            cout := cout w @
              [Text (case res of Critical \<Rightarrow> ''[CRITICAL]: '' | Success \<Rightarrow> ''[SUCCESS]: ''
                     | Error \<Rightarrow> ''[FAILED]: ''),
               Text ''('',
               Text (loc_file_name (current_location (test_reg w))),
               Text '', '',
               UInt (loc_line (current_location (test_reg w))),
               Text '':'',
               UInt (loc_column (current_location (test_reg w))),
               Text '':'',
               UInt 0,
               Text ''ns'',
               Text '') ['',
               Text (loc_function_name (current_location (test_reg w))),
               Text ''] -> '',
               Text message,
               Ch (CHR ''\<newline>'')]\<rparr>)"
  by (cases res)
    (simp_all add: record_and_put_def put_log_def put_def draw_case_def and_then_def print_def
      Let_def)

text \<open>
  For each of the six evaluated kinds, what \<open>assert\<close> records depends on the operands only,
  and it is never \<open>Critical\<close>.
\<close>

lemma assert_outcome:
  assumes "type \<noteq> MemLeak"
  shows "\<exists>res message. res \<noteq> Critical \<and>
           (\<forall>location w. assert ops type val val2 location w =
              record_and_put res message
                (w\<lparr>test_reg := (test_reg w)\<lparr>current_location := location\<rparr>\<rparr>))"
proof (cases type)
  case Eq
  then show ?thesis by (cases "op_eq ops val val2") (auto simp add: assert_def)
next
  case UnEq
  then show ?thesis by (cases "op_ne ops val val2") (auto simp add: assert_def)
next
  case Gt
  then show ?thesis by (cases "op_gt ops val val2") (auto simp add: assert_def)
next
  case Lt
  then show ?thesis by (cases "op_lt ops val val2") (auto simp add: assert_def)
next
  case GEq
  then show ?thesis by (cases "op_ge ops val val2") (auto simp add: assert_def)
next
  case LEq
  then show ?thesis by (cases "op_le ops val val2") (auto simp add: assert_def)
next
  case MemLeak
  with assms show ?thesis by simp
qed

section \<open>Facts about the guard, the runner and the sample case\<close>

lemma int_comparisons_simps:
  "op_eq int_comparisons a b = (a = b)"
  "op_ne int_comparisons a b = (a \<noteq> b)"
  "op_gt int_comparisons a b = (b <s a)"
  "op_lt int_comparisons a b = (a <s b)"
  "op_ge int_comparisons a b = (b \<le>s a)"
  "op_le int_comparisons a b = (a \<le>s b)"
  by (simp_all add: int_comparisons_def)

text \<open>
  The guard on a negative counter, in closed form: the node, the two printed blocks and the
  one reading of the clock that the summary makes.
\<close>

lemma assert_rc_negative:
  assumes "rc (test_reg w) <s 0"
  shows "assert_rc location w =
     Inl (Aborted
       (w\<lparr>test_reg := (test_reg w)
             \<lparr>infos := infos (test_reg w) @
                [\<lparr>ms_took = 0, result = Known Critical,
                  data = ''(RC < 0) Deallocating not allocated value'',
                  func = Indeterminate\<rparr>]\<rparr>,
          cout := cout w @
            [Text ''[CRITICAL]: '',
             Text ''('',
             Text (loc_file_name (current_location (test_reg w))),
             Text '', '',
             UInt (loc_line (current_location (test_reg w))),
             Text '':'',
             UInt (loc_column (current_location (test_reg w))),
             Text '':'',
             UInt 0,
             Text ''ns'',
             Text '') ['',
             Text (loc_function_name (current_location (test_reg w))),
             Text ''] -> '',
             Text ''(RC < 0) Deallocating not allocated value'',
             Ch (CHR ''\<newline>''),
             Text ''\<newline>[SUMMARY]\<newline>'',
             Text ''File: '',
             Text (loc_file_name (current_location (test_reg w))),
             Ch (CHR ''\<newline>''),
             Text ''Error/s: '',
             UInt (errors (test_reg w)),
             Ch (CHR ''\<newline>''),
             Long (clock w (ticks w) - main_ms (test_reg w)),
             Text ''ns\<newline>''],
          ticks := Suc (ticks w)\<rparr>))"
  using assms
  by (simp add: assert_rc_def put_log_def put_def draw_case_def and_then_def print_def Let_def
      summary_def since_time_def now_def)

lemma assert_returns: "\<exists>w'. assert ops type val val2 location w = Inr w'"
  by (cases type) (simp_all add: assert_def record_and_put_eq Let_def)

lemma draw_case_known:
  "draw_case node w =
     (case result node of
        Indeterminate \<Rightarrow> Inl Undefined
      | Known res \<Rightarrow>
          Inr (w\<lparr>test_reg := (test_reg w)
                   \<lparr>errors := errors (test_reg w) + (if res = Error then 1 else 0)\<rparr>,
                 cout := cout w @
                   [Text (case res of Critical \<Rightarrow> ''[CRITICAL]: '' | Success \<Rightarrow> ''[SUCCESS]: ''
                          | Error \<Rightarrow> ''[FAILED]: '')]\<rparr>))"
  by (simp add: draw_case_def print_def split: cell.splits test_results.splits)

text \<open>
  What a result of \<open>calculate_time\<close> and of one turn of the loop says about the call
  that was made.
\<close>

lemma calculate_time_Inr:
  assumes "calculate_time code fn w = Inr (d, w1)"
  shows "\<exists>f w2. fn = Fn f \<and> code f (w\<lparr>ticks := Suc (ticks w)\<rparr>) = Inr w2 \<and>
           w1 = w2\<lparr>ticks := Suc (ticks w2)\<rparr> \<and>
           d = word_of_int (clock w2 (ticks w2) - clock w (ticks w))"
  using assms
  by (simp add: calculate_time_def now_def split: function_test.splits sum.splits)

lemma calculate_time_Inl:
  assumes "calculate_time code fn w = Inl h"
  shows "(fn = Nullptr \<and> h = Undefined) \<or>
         (\<exists>f. fn = Fn f \<and> code f (w\<lparr>ticks := Suc (ticks w)\<rparr>) = Inl h)"
  using assms
  by (simp add: calculate_time_def now_def split: function_test.splits sum.splits)

lemma loop_turn_Inr:
  assumes "loop_turn code i w = Inr w'"
  shows "(func (infos (test_reg w) ! i) = Known Nullptr \<and> w' = w) \<or>
         (\<exists>f d w1. func (infos (test_reg w) ! i) = Known (Fn f) \<and>
            calculate_time code (Fn f) w = Inr (d, w1) \<and>
            length (infos (test_reg w1)) = length (infos (test_reg w)) \<and>
            w' = set_ms_took i d w1)"
  using assms
  by (auto simp add: loop_turn_def and_then_def
      split: cell.splits function_test.splits sum.splits if_splits)

lemma loop_turn_Inl:
  assumes "loop_turn code i w = Inl (Aborted w')"
  shows "\<exists>f. func (infos (test_reg w) ! i) = Known (Fn f) \<and>
           calculate_time code (Fn f) w = Inl (Aborted w')"
  using assms
  by (auto simp add: loop_turn_def and_then_def
      split: cell.splits function_test.splits sum.splits if_splits)

text \<open>
  A property of worlds that the called functions, a reading of the clock and the storing of a
  duration keep is kept by the runner, up to the world of an abort.
\<close>

lemma calculate_time_preserves:
  assumes body: "\<forall>f u u'. P u \<longrightarrow> world_of (code f u) = Some u' \<longrightarrow> P u'"
    and tick: "\<forall>u n. P u \<longrightarrow> P (u\<lparr>ticks := n\<rparr>)"
    and "P w"
  shows "calculate_time code fn w = Inr (d, w1) \<Longrightarrow> P w1"
    and "calculate_time code fn w = Inl (Aborted w') \<Longrightarrow> P w'"
proof -
  have start: "P (w\<lparr>ticks := Suc (ticks w)\<rparr>)"
    using \<open>P w\<close> tick by blast
  {
    assume "calculate_time code fn w = Inr (d, w1)"
    from calculate_time_Inr [OF this] obtain f w2 where
      run: "code f (w\<lparr>ticks := Suc (ticks w)\<rparr>) = Inr w2" and w1: "w1 = w2\<lparr>ticks := Suc (ticks w2)\<rparr>"
      by blast
    from run have "world_of (code f (w\<lparr>ticks := Suc (ticks w)\<rparr>)) = Some w2"
      by (simp add: world_of_def)
    with start body have "P w2" by blast
    then show "P w1" unfolding w1 using tick by blast
  }
  {
    assume "calculate_time code fn w = Inl (Aborted w')"
    from calculate_time_Inl [OF this] obtain f where
      "code f (w\<lparr>ticks := Suc (ticks w)\<rparr>) = Inl (Aborted w')"
      by blast
    then have "world_of (code f (w\<lparr>ticks := Suc (ticks w)\<rparr>)) = Some w'"
      by (simp add: world_of_def)
    with start body show "P w'" by blast
  }
qed

lemma loop_turn_preserves:
  assumes body: "\<forall>f u u'. P u \<longrightarrow> world_of (code f u) = Some u' \<longrightarrow> P u'"
    and tick: "\<forall>u n. P u \<longrightarrow> P (u\<lparr>ticks := n\<rparr>)"
    and ms: "\<forall>u i d. P u \<longrightarrow> P (set_ms_took i d u)"
    and "P w"
  shows "loop_turn code i w = Inr w' \<Longrightarrow> P w'"
    and "loop_turn code i w = Inl (Aborted w') \<Longrightarrow> P w'"
proof -
  {
    assume "loop_turn code i w = Inr w'"
    from loop_turn_Inr [OF this] show "P w'"
    proof
      assume "func (infos (test_reg w) ! i) = Known Nullptr \<and> w' = w"
      with \<open>P w\<close> show ?thesis by simp
    next
      assume "\<exists>f d w1. func (infos (test_reg w) ! i) = Known (Fn f) \<and>
            calculate_time code (Fn f) w = Inr (d, w1) \<and>
            length (infos (test_reg w1)) = length (infos (test_reg w)) \<and>
            w' = set_ms_took i d w1"
      then obtain f d w1 where
        ct: "calculate_time code (Fn f) w = Inr (d, w1)" and w': "w' = set_ms_took i d w1"
        by blast
      from calculate_time_preserves(1) [OF body tick \<open>P w\<close> ct]
      have "P w1" .
      then show ?thesis unfolding w' using ms by blast
    qed
  }
  {
    assume "loop_turn code i w = Inl (Aborted w')"
    from loop_turn_Inl [OF this] obtain f where
      ct: "calculate_time code (Fn f) w = Inl (Aborted w')" by blast
    from calculate_time_preserves(2) [OF body tick \<open>P w\<close> ct]
    show "P w'" .
  }
qed

lemma run_loop_preserves:
  "P w \<Longrightarrow> world_of (run_loop code n i w) = Some w' \<Longrightarrow>
   \<forall>f u u'. P u \<longrightarrow> world_of (code f u) = Some u' \<longrightarrow> P u' \<Longrightarrow>
   \<forall>u n. P u \<longrightarrow> P (u\<lparr>ticks := n\<rparr>) \<Longrightarrow>
   \<forall>u i d. P u \<longrightarrow> P (set_ms_took i d u) \<Longrightarrow> P w'"
proof (induction code n i w rule: run_loop.induct)
  case (1 code n i w)
  show ?case
  proof (cases "n \<le> i")
    case True
    with "1.prems" show ?thesis by (simp add: world_of_def run_loop.simps)
  next
    case False
    show ?thesis
    proof (cases "loop_turn code i w")
      case (Inl h)
      with False "1.prems"(2) have "h = Aborted w'"
        by (cases h) (simp_all add: and_then_def world_of_def run_loop.simps [of code n i])
      with Inl loop_turn_preserves(2) [OF "1.prems"(3,4,5,1)]
      show ?thesis by blast
    next
      case (Inr w1)
      with loop_turn_preserves(1) [OF "1.prems"(3,4,5,1)]
      have "P w1" by blast
      moreover from False Inr "1.prems"(2)
      have "world_of (run_loop code n (Suc i) w1) = Some w'"
        by (simp add: and_then_def run_loop.simps [of code n i])
      ultimately show ?thesis
        using "1.IH" [OF False, of w1] "1.prems"(3,4,5) by blast
    qed
  qed
qed

lemma run_tests_preserves:
  assumes body: "\<forall>f u u'. P u \<longrightarrow> world_of (code f u) = Some u' \<longrightarrow> P u'"
    and tick: "\<forall>u n. P u \<longrightarrow> P (u\<lparr>ticks := n\<rparr>)"
    and ms: "\<forall>u i d. P u \<longrightarrow> P (set_ms_took i d u)"
    and "P w" and run: "world_of (run_tests code w) = Some w'"
  shows "P w'"
proof (cases "calculate_time code (test_func (test_reg w)) w")
  case (Inl h)
  with run have "h = Aborted w'"
    by (cases h) (simp_all add: run_tests_def and_then_def world_of_def)
  with Inl calculate_time_preserves(2) [OF body tick \<open>P w\<close>]
  show ?thesis by blast
next
  case (Inr p)
  obtain d w1 where p: "p = (d, w1)" by (cases p)
  with Inr calculate_time_preserves(1) [OF body tick \<open>P w\<close>]
  have "P w1" by blast
  with ms have start: "P (set_ms_took (length (infos (test_reg w1)) - 1) d w1)" by blast
  from Inr p run have
    "world_of (run_loop code
       (length (infos (test_reg (set_ms_took (length (infos (test_reg w1)) - 1) d w1)))) 0
       (set_ms_took (length (infos (test_reg w1)) - 1) d w1)) = Some w'"
    by (simp add: run_tests_def and_then_def world_of_def Let_def split: if_splits)
  from run_loop_preserves [OF start this body tick ms] show ?thesis .
qed

lemma length_filter_update:
  "(i < length xs \<Longrightarrow> P y = P (xs ! i)) \<Longrightarrow>
   length (filter P (xs[i := y])) = length (filter P xs)"
proof (induction xs arbitrary: i)
  case Nil
  then show ?case by simp
next
  case (Cons x xs)
  then show ?case by (cases i) auto
qed

text \<open>
  The sample body and a release in the fresh sample case, evaluated.
\<close>

lemma example_body_run:
  "run_body int_comparisons (example_bodies 0) w =
     and_then (assert_gt int_comparisons 1 5 call_site w) (\<lambda>w1.
       and_then (assert_eq int_comparisons 4 4 call_site w1) (\<lambda>w2. DEALLOC call_site w2))"
  by (simp add: example_bodies_def and_then_def split: sum.splits)

lemma example_body_result:
  assumes "rc (test_reg w) = 0"
  shows "run_body int_comparisons (example_bodies 0) w =
     Inl (Aborted
       (w\<lparr>test_reg := (test_reg w)
             \<lparr>rc := - 1,
              errors := errors (test_reg w) + 1,
              current_location := call_site,
              infos := infos (test_reg w) @
                [\<lparr>ms_took = 0, result = Known Error,
                  data = ''Given values are not greater, expected greater'',
                  func = Indeterminate\<rparr>,
                 \<lparr>ms_took = 0, result = Known Success, data = ''OK'', func = Indeterminate\<rparr>,
                 \<lparr>ms_took = 0, result = Known Critical,
                  data = ''(RC < 0) Deallocating not allocated value'',
                  func = Indeterminate\<rparr>]\<rparr>,
          cout := cout w @
            [Text ''[FAILED]: '', Text ''('', Text ''math.cpp'', Text '', '', UInt 4, Text '':'',
             UInt 5, Text '':'', UInt 0, Text ''ns'', Text '') ['', Text ''void math()'',
             Text ''] -> '', Text ''Given values are not greater, expected greater'',
             Ch (CHR ''\<newline>''),
             Text ''[SUCCESS]: '', Text ''('', Text ''math.cpp'', Text '', '', UInt 4, Text '':'',
             UInt 5, Text '':'', UInt 0, Text ''ns'', Text '') ['', Text ''void math()'',
             Text ''] -> '', Text ''OK'', Ch (CHR ''\<newline>''),
             Text ''[CRITICAL]: '', Text ''('', Text ''math.cpp'', Text '', '', UInt 4, Text '':'',
             UInt 5, Text '':'', UInt 0, Text ''ns'', Text '') ['', Text ''void math()'',
             Text ''] -> '', Text ''(RC < 0) Deallocating not allocated value'',
             Ch (CHR ''\<newline>''),
             Text ''\<newline>[SUMMARY]\<newline>'', Text ''File: '', Text ''math.cpp'',
             Ch (CHR ''\<newline>''), Text ''Error/s: '', UInt (errors (test_reg w) + 1),
             Ch (CHR ''\<newline>''),
             Long (clock w (ticks w) - main_ms (test_reg w)), Text ''ns\<newline>''],
          ticks := Suc (ticks w)\<rparr>))"
  using assms
  by (simp add: example_body_run assert_gt_def assert_eq_def assert_def record_and_put_eq
        and_then_def int_comparisons_simps word_sless_alt DEALLOC_def assert_rc_negative
        call_site_def)

lemma DEALLOC_example:
  "DEALLOC call_site example_case =
     Inl (Aborted
       (example_case
          \<lparr>test_reg := (test_reg example_case)
             \<lparr>rc := - 1,
              infos := [\<lparr>ms_took = 0, result = Known Critical,
                  data = ''(RC < 0) Deallocating not allocated value'',
                  func = Indeterminate\<rparr>]\<rparr>,
          cout := 
            [Text ''[CRITICAL]: '',
             Text ''('',
             Text '''',
             Text '', '',
             UInt 0,
             Text '':'',
             UInt 0,
             Text '':'',
             UInt 0,
             Text ''ns'',
             Text '') ['',
             Text '''',
             Text ''] -> '',
             Text ''(RC < 0) Deallocating not allocated value'',
             Ch (CHR ''\<newline>''),
             Text ''\<newline>[SUMMARY]\<newline>'',
             Text ''File: '',
             Text '''',
             Ch (CHR ''\<newline>''),
             Text ''Error/s: '',
             UInt 0,
             Ch (CHR ''\<newline>''),
             Long 1000,
             Text ''ns\<newline>''],
          ticks := 2\<rparr>))"
  by (simp add: DEALLOC_def assert_rc_negative example_case_simps new_test_simps
      default_location_def example_clock_def)

lemma assert_never_halts: "assert ops type val val2 location w \<noteq> Inl h"
  using assert_returns [of ops type val val2 location w] by auto

text \<open>
  Where an abort can come from.
\<close>

lemma run_statement_abort:
  assumes "run_statement ops s w = Inl (Aborted w')"
  shows "(\<exists>location. s = Alloc location \<and> rc (test_reg w) <s 0) \<or>
         (\<exists>location. s = Dealloc location \<and> rc (test_reg w) - 1 <s 0)"
proof (cases s)
  case (Alloc location)
  with assms show ?thesis
    by (auto simp add: ALLOC_def assert_rc_def and_then_def split: if_splits)
next
  case (Dealloc location)
  with assms show ?thesis
    by (auto simp add: DEALLOC_def assert_rc_def split: if_splits)
next
  case (Register tst)
  with assms show ?thesis by simp
qed (use assms in \<open>simp_all add: assert_eq_def assert_uneq_def
      assert_gt_def assert_lt_def assert_geq_def assert_leq_def assert_never_halts\<close>)

lemma test_dtor_abort:
  assumes "test_dtor here w = Inl (Aborted w')"
  shows "rc (test_reg w) <s 0"
  using assms by (auto simp add: test_dtor_def assert_rc_def and_then_def split: if_splits)

lemma run_loop_abort:
  "run_loop code n i w = Inl (Aborted w') \<Longrightarrow> \<exists>f u. code f u = Inl (Aborted w')"
proof (induction code n i w rule: run_loop.induct)
  case (1 code n i w)
  show ?case
  proof (cases "n \<le> i")
    case True
    with "1.prems" show ?thesis by (simp add: run_loop.simps)
  next
    case False
    show ?thesis
    proof (cases "loop_turn code i w")
      case (Inl h)
      with False "1.prems" have "loop_turn code i w = Inl (Aborted w')"
        by (simp add: and_then_def run_loop.simps [of code n i])
      from loop_turn_Inl [OF this] obtain f where
        "calculate_time code (Fn f) w = Inl (Aborted w')" by blast
      from calculate_time_Inl [OF this] show ?thesis by blast
    next
      case (Inr w1)
      with False "1.prems" have "run_loop code n (Suc i) w1 = Inl (Aborted w')"
        by (simp add: and_then_def run_loop.simps [of code n i])
      with "1.IH" [OF False, of w1] show ?thesis by blast
    qed
  qed
qed

lemma run_tests_abort:
  assumes "run_tests code w = Inl (Aborted w')"
  shows "\<exists>f u. code f u = Inl (Aborted w')"
proof (cases "calculate_time code (test_func (test_reg w)) w")
  case (Inl h)
  with assms have "calculate_time code (test_func (test_reg w)) w = Inl (Aborted w')"
    by (simp add: run_tests_def and_then_def)
  from calculate_time_Inl [OF this] show ?thesis by blast
next
  case (Inr p)
  obtain d w1 where p: "p = (d, w1)" by (cases p)
  with Inr assms have
    "run_loop code
       (length (infos (test_reg (set_ms_took (length (infos (test_reg w1)) - 1) d w1)))) 0
       (set_ms_took (length (infos (test_reg w1)) - 1) d w1) = Inl (Aborted w')"
    by (simp add: run_tests_def and_then_def Let_def split: if_splits)
  from run_loop_abort [OF this] show ?thesis .
qed

lemma negative_case_simps:
  "rc (test_reg negative_case) = - 1"
  "errors (test_reg negative_case) = 0"
  "infos (test_reg negative_case) = []"
  "current_location (test_reg negative_case) = default_location"
  "main_ms (test_reg negative_case) = 0"
  "test_func (test_reg negative_case) = Fn 0"
  "cout negative_case = []"
  "ticks negative_case = 1"
  "clock negative_case = example_clock"
  by (simp_all add: negative_case_def example_case_simps new_test_simps)

lemma assert_rc_abort_rc:
  "rc (test_reg w) <s 0 \<Longrightarrow>
   map_option (rc \<circ> test_reg) (world_of (assert_rc location w)) = Some (rc (test_reg w))"
  by (simp add: assert_rc_negative world_of_def)

lemma runner_bodies_simps:
  "runner_bodies 0 = [Register (Fn 1), Register Nullptr, Register (Fn 2)]"
  "runner_bodies (Suc 0) = [Alloc call_site]"
  "runner_bodies 2 = [Dealloc call_site]"
  by (simp_all add: runner_bodies_def)

text \<open>
  The worlds the loop passes through, one turn after the other.
\<close>

lemma set_ms_took_simps:
  "length (infos (test_reg (set_ms_took i d w))) = length (infos (test_reg w))"
  "i < length (infos (test_reg w)) \<Longrightarrow> ms_took (infos (test_reg (set_ms_took i d w)) ! i) = d"
  "cout (set_ms_took i d w) = cout w"
  "ticks (set_ms_took i d w) = ticks w"
  "clock (set_ms_took i d w) = clock w"
  by (simp_all add: set_ms_took_def)

lemma loop_turn_length:
  assumes "loop_turn code i w = Inr w'"
  shows "length (infos (test_reg w')) = length (infos (test_reg w))"
  using loop_turn_Inr [OF assms] by (auto simp add: set_ms_took_simps)

lemma run_loop_chain:
  "run_loop code n i w = Inr w' \<Longrightarrow> i \<le> n \<Longrightarrow>
   \<exists>ss. ss i = w \<and> ss n = w' \<and> (\<forall>j. i \<le> j \<and> j < n \<longrightarrow> loop_turn code j (ss j) = Inr (ss (Suc j)))"
proof (induction code n i w rule: run_loop.induct)
  case (1 code n i w)
  show ?case
  proof (cases "n \<le> i")
    case True
    with "1.prems" have "w' = w" and "i = n" by (simp_all add: run_loop.simps)
    then show ?thesis by (intro exI [of _ "\<lambda>_. w"]) auto
  next
    case False
    with "1.prems"(1) obtain w1 where
      turn: "loop_turn code i w = Inr w1" and rest: "run_loop code n (Suc i) w1 = Inr w'"
      by (cases "loop_turn code i w") (simp_all add: and_then_def run_loop.simps [of code n i])
    from False have "Suc i \<le> n" by simp
    from "1.IH" [OF False rest this] obtain ss where
      ss: "ss (Suc i) = w1" "ss n = w'"
        "\<forall>j. Suc i \<le> j \<and> j < n \<longrightarrow> loop_turn code j (ss j) = Inr (ss (Suc j))"
      by blast
    let ?ss = "ss(i := w)"
    have "?ss i = w" by simp
    moreover from False ss(2) have "?ss n = w'" by simp
    moreover have "\<forall>j. i \<le> j \<and> j < n \<longrightarrow> loop_turn code j (?ss j) = Inr (?ss (Suc j))"
    proof (intro allI impI)
      fix j assume j: "i \<le> j \<and> j < n"
      show "loop_turn code j (?ss j) = Inr (?ss (Suc j))"
      proof (cases "j = i")
        case True
        with turn ss(1) show ?thesis by simp
      next
        case False
        with j ss(3) show ?thesis by simp
      qed
    qed
    ultimately show ?thesis by blast
  qed
qed


lemma runner_result:
  "run_tests (\<lambda>f. run_body int_comparisons (runner_bodies f)) example_case =
   Inr (example_case
          \<lparr>ticks := 7,
           test_reg := (test_reg example_case)
             \<lparr>rc := 0,
              infos :=
                [\<lparr>ms_took = 7000, result = Indeterminate, data = '''', func = Known (Fn 1)\<rparr>,
                 \<lparr>ms_took = 0, result = Indeterminate, data = '''', func = Known Nullptr\<rparr>,
                 \<lparr>ms_took = 11000, result = Indeterminate, data = '''',
                  func = Known (Fn 2)\<rparr>]\<rparr>\<rparr>)"
  by (simp add: run_tests_def calculate_time_def now_def runner_bodies_simps and_then_def
      test_function_def set_ms_took_def loop_turn_def ALLOC_def DEALLOC_def assert_rc_def
      example_case_simps new_test_simps example_clock_def Let_def run_loop.simps)

section \<open>Facts about the ledger under the runner\<close>





lemma math_code_eq: "math_code = (\<lambda>f. run_body int_comparisons (math_bodies f))"
  by (rule ext) (simp add: math_code_def)


text \<open>
  The body of the scenario, evaluated in any world: two nodes, two lines, the tally one higher,
  the counter untouched.
\<close>

lemma math_body_result:
  "run_body int_comparisons (math_bodies 0) w =
     Inr (w\<lparr>test_reg := (test_reg w)
             \<lparr>errors := errors (test_reg w) + 1,
              current_location := call_site,
              infos := infos (test_reg w) @
                [\<lparr>ms_took = 0, result = Known Success, data = ''OK'', func = Indeterminate\<rparr>,
                 \<lparr>ms_took = 0, result = Known Error,
                  data = ''Given values are not greater, expected greater'',
                  func = Indeterminate\<rparr>]\<rparr>,
          cout := cout w @
            [Text ''[SUCCESS]: '', Text ''('', Text ''math.cpp'', Text '', '', UInt 4, Text '':'',
             UInt 5, Text '':'', UInt 0, Text ''ns'', Text '') ['', Text ''void math()'',
             Text ''] -> '', Text ''OK'', Ch (CHR ''\<newline>''),
             Text ''[FAILED]: '', Text ''('', Text ''math.cpp'', Text '', '', UInt 4, Text '':'',
             UInt 5, Text '':'', UInt 0, Text ''ns'', Text '') ['', Text ''void math()'',
             Text ''] -> '', Text ''Given values are not greater, expected greater'',
             Ch (CHR ''\<newline>'')]\<rparr>)"
  by (simp add: math_bodies_def assert_gt_def assert_eq_def assert_def record_and_put_eq
        and_then_def int_comparisons_simps word_sless_alt call_site_def)

text \<open>
  A node whose \<open>func\<close> was never assigned stops the loop: the comparison with
  \<^verbatim>\<open>nullptr\<close> reads an indeterminate pointer.
\<close>

lemma loop_turn_indeterminate:
  "func (infos (test_reg w) ! i) = Indeterminate \<Longrightarrow> loop_turn code i w = Inl Undefined"
  by (simp add: loop_turn_def)

text \<open>
  The worlds of a run that returns, and what one turn of the loop does to the nodes when the
  called functions keep them: the turn at position \<open>j\<close> changes the node at \<open>j\<close> only.
\<close>

lemma run_tests_worlds:
  assumes "run_tests code w = Inr w'"
  shows "\<exists>d w1 ss.
     calculate_time code (test_func (test_reg w)) w = Inr (d, w1) \<and>
     infos (test_reg w1) \<noteq> [] \<and>
     ss 0 = set_ms_took (length (infos (test_reg w1)) - 1) d w1 \<and>
     ss (length (infos (test_reg w1))) = w' \<and>
     (\<forall>j < length (infos (test_reg w1)). loop_turn code j (ss j) = Inr (ss (Suc j))) \<and>
     (\<forall>j \<le> length (infos (test_reg w1)).
        length (infos (test_reg (ss j))) = length (infos (test_reg w1)))"
proof -
  from assms obtain d w1 where
    body: "calculate_time code (test_func (test_reg w)) w = Inr (d, w1)"
    by (cases "calculate_time code (test_func (test_reg w)) w")
      (auto simp add: run_tests_def and_then_def)
  define n where "n = length (infos (test_reg w1))"
  define w2 where "w2 = set_ms_took (n - 1) d w1"
  from assms body have nonempty: "infos (test_reg w1) \<noteq> []"
    and loop: "run_loop code n 0 w2 = Inr w'"
    by (auto simp add: run_tests_def and_then_def Let_def n_def w2_def set_ms_took_simps
        split: if_splits)
  from run_loop_chain [OF loop] obtain ss where
    ss: "ss 0 = w2" "ss n = w'"
      "\<forall>j. 0 \<le> j \<and> j < n \<longrightarrow> loop_turn code j (ss j) = Inr (ss (Suc j))"
    by blast
  have len: "j \<le> n \<Longrightarrow> length (infos (test_reg (ss j))) = n" for j
  proof (induction j)
    case 0
    with ss(1) show ?case by (simp add: w2_def set_ms_took_simps n_def)
  next
    case (Suc j)
    then have "loop_turn code j (ss j) = Inr (ss (Suc j))" using ss(3) by simp
    from loop_turn_length [OF this] Suc show ?case by simp
  qed
  from body nonempty ss len show ?thesis
    unfolding n_def w2_def by auto
qed

lemma loop_turn_nodes:
  assumes "keeps_nodes code" and "loop_turn code j u = Inr u'"
  shows "(func (infos (test_reg u) ! j) = Known Nullptr \<and> u' = u) \<or>
         (\<exists>f d ui. func (infos (test_reg u) ! j) = Known (Fn f) \<and>
            code f (u\<lparr>ticks := Suc (ticks u)\<rparr>) = Inr ui \<and>
            d = word_of_int (clock ui (ticks ui) - clock u (ticks u)) \<and>
            u' = set_ms_took j d (ui\<lparr>ticks := Suc (ticks ui)\<rparr>) \<and>
            infos (test_reg ui) = infos (test_reg u))"
proof -
  from loop_turn_Inr [OF assms(2)] show ?thesis
  proof
    assume "func (infos (test_reg u) ! j) = Known Nullptr \<and> u' = u"
    then show ?thesis by simp
  next
    assume "\<exists>f d w1. func (infos (test_reg u) ! j) = Known (Fn f) \<and>
            calculate_time code (Fn f) u = Inr (d, w1) \<and>
            length (infos (test_reg w1)) = length (infos (test_reg u)) \<and>
            u' = set_ms_took j d w1"
    then obtain f d w1 where
      f: "func (infos (test_reg u) ! j) = Known (Fn f)" and
      ct: "calculate_time code (Fn f) u = Inr (d, w1)" and
      l: "length (infos (test_reg w1)) = length (infos (test_reg u))" and
      u': "u' = set_ms_took j d w1"
      by blast
    from calculate_time_Inr [OF ct] obtain ui where
      run: "code f (u\<lparr>ticks := Suc (ticks u)\<rparr>) = Inr ui" and
      w1: "w1 = ui\<lparr>ticks := Suc (ticks ui)\<rparr>" and
      d: "d = word_of_int (clock ui (ticks ui) - clock u (ticks u))"
      by auto
    from l w1 have "length (infos (test_reg ui)) =
        length (infos (test_reg (u\<lparr>ticks := Suc (ticks u)\<rparr>)))"
      by simp
    with assms(1) run have "infos (test_reg ui) = infos (test_reg (u\<lparr>ticks := Suc (ticks u)\<rparr>))"
      unfolding keeps_nodes_def by blast
    then have "infos (test_reg ui) = infos (test_reg u)" by simp
    with f run d u' w1 show ?thesis by blast
  qed
qed

lemma loop_turn_other_node:
  assumes "keeps_nodes code" and "loop_turn code j u = Inr u'" and "i \<noteq> j"
  shows "infos (test_reg u') ! i = infos (test_reg u) ! i"
  using loop_turn_nodes [OF assms(1,2)] assms(3)
  by (auto simp add: set_ms_took_def)

lemma chain_node_before:
  assumes k: "keeps_nodes code"
    and turns: "\<forall>j < n. loop_turn code j (ss j) = Inr (ss (Suc j))"
  shows "j \<le> i \<Longrightarrow> i < n \<Longrightarrow> infos (test_reg (ss j)) ! i = infos (test_reg (ss 0)) ! i"
proof (induction j)
  case 0
  show ?case by simp
next
  case (Suc j)
  then have "loop_turn code j (ss j) = Inr (ss (Suc j))" and "i \<noteq> j"
    using turns by simp_all
  from loop_turn_other_node [OF k this] Suc show ?case by simp
qed



text \<open>
  \<open>run_tests\<close> reads the pointer of every node the body left in the ledger: with a node
  whose pointer was never assigned, it does not return.
\<close>

lemma run_tests_reads_every_pointer:
  assumes k: "keeps_nodes code"
    and body: "calculate_time code (test_func (test_reg w)) w = Inr (d, w1)"
    and i: "i < length (infos (test_reg w1))"
    and ind: "func (infos (test_reg w1) ! i) = Indeterminate"
  shows "run_tests code w \<noteq> Inr w'"
proof
  assume "run_tests code w = Inr w'"
  from run_tests_worlds [OF this] body obtain ss where
    ss0: "ss 0 = set_ms_took (length (infos (test_reg w1)) - 1) d w1" and
    turns: "\<forall>j < length (infos (test_reg w1)). loop_turn code j (ss j) = Inr (ss (Suc j))"
    by auto
  from chain_node_before [OF k turns, of i i] i
  have "infos (test_reg (ss i)) ! i = infos (test_reg (ss 0)) ! i" by simp
  also have "func \<dots> = func (infos (test_reg w1) ! i)"
    using i by (simp add: ss0 set_ms_took_def nth_list_update)
  finally have "func (infos (test_reg (ss i)) ! i) = Indeterminate" using ind by simp
  then have "loop_turn code i (ss i) = Inl Undefined" by (rule loop_turn_indeterminate)
  with turns i show False by simp
qed

section \<open>The assertion engine\<close>

text \<open>
  Claim C1. For each of the six kinds \<open>Eq\<close>, \<open>UnEq\<close>, \<open>Gt\<close>, \<open>Lt\<close>, \<open>GEq\<close>, \<open>LEq\<close> and
  every pair of operands, \<open>assert\<close> returns and has appended one node to the ledger: when the
  kind's operator holds of the operands, the node has result \<open>Success\<close> and message "OK";
  when it fails, the node has result \<open>Error\<close> and the message of that kind.
\<close>

theorem assert_records_outcome:
  "(\<exists>w'. assert ops Eq val val2 location w = Inr w' \<and>
       infos (test_reg w') = infos (test_reg w) @
         [if op_eq ops val val2
          then \<lparr>ms_took = 0, result = Known Success, data = ''OK'', func = Indeterminate\<rparr>
          else \<lparr>ms_took = 0, result = Known Error,
                 data = ''Given values are not equal, expected equal'',
                 func = Indeterminate\<rparr>]) \<and>
   (\<exists>w'. assert ops UnEq val val2 location w = Inr w' \<and>
       infos (test_reg w') = infos (test_reg w) @
         [if op_ne ops val val2
          then \<lparr>ms_took = 0, result = Known Success, data = ''OK'', func = Indeterminate\<rparr>
          else \<lparr>ms_took = 0, result = Known Error,
                 data = ''Given values are equal, expected not equal'',
                 func = Indeterminate\<rparr>]) \<and>
   (\<exists>w'. assert ops Gt val val2 location w = Inr w' \<and>
       infos (test_reg w') = infos (test_reg w) @
         [if op_gt ops val val2
          then \<lparr>ms_took = 0, result = Known Success, data = ''OK'', func = Indeterminate\<rparr>
          else \<lparr>ms_took = 0, result = Known Error,
                 data = ''Given values are not greater, expected greater'',
                 func = Indeterminate\<rparr>]) \<and>
   (\<exists>w'. assert ops Lt val val2 location w = Inr w' \<and>
       infos (test_reg w') = infos (test_reg w) @
         [if op_lt ops val val2
          then \<lparr>ms_took = 0, result = Known Success, data = ''OK'', func = Indeterminate\<rparr>
          else \<lparr>ms_took = 0, result = Known Error,
                 data = ''Given values are greater, expected not greater'',
                 func = Indeterminate\<rparr>]) \<and>
   (\<exists>w'. assert ops GEq val val2 location w = Inr w' \<and>
       infos (test_reg w') = infos (test_reg w) @
         [if op_ge ops val val2
          then \<lparr>ms_took = 0, result = Known Success, data = ''OK'', func = Indeterminate\<rparr>
          else \<lparr>ms_took = 0, result = Known Error,
                 data = ''Given values are not greater or equal, expected greater or equal'',
                 func = Indeterminate\<rparr>]) \<and>
   (\<exists>w'. assert ops LEq val val2 location w = Inr w' \<and>
       infos (test_reg w') = infos (test_reg w) @
         [if op_le ops val val2
          then \<lparr>ms_took = 0, result = Known Success, data = ''OK'', func = Indeterminate\<rparr>
          else \<lparr>ms_took = 0, result = Known Error,
                 data = ''Given values are greater or equal, expected not greater or equal'',
                 func = Indeterminate\<rparr>])"
  by (simp add: assert_def record_and_put_eq)

text \<open>
  The scenario of the specification on \<^verbatim>\<open>int\<close> operands: \<open>assert_eq(2 + 2, 4)\<close> records
  \<open>Success\<close> with "OK", \<open>assert_gt(1, 5)\<close> records \<open>Error\<close> with the message of \<open>Gt\<close>, and
  the tally is 1 afterwards.
\<close>

lemma math_scenario:
  "and_then (assert_eq int_comparisons (2 + 2) 4 call_site example_case)
     (\<lambda>w1. and_then (assert_gt int_comparisons 1 5 call_site w1)
        (\<lambda>w2. Inr (map (\<lambda>n. (result n, data n)) (infos (test_reg w2)),
                    errors (test_reg w2)))) =
   Inr ([(Known Success, ''OK''),
         (Known Error, ''Given values are not greater, expected greater'')], 1)"
  by (simp add: assert_eq_def assert_gt_def assert_def record_and_put_eq and_then_def
      int_comparisons_def example_case_simps new_test_simps word_sless_alt)

text \<open>
  On \<^verbatim>\<open>int\<close> operands with \<open>a < b\<close>, \<open>assert_lt\<close> and \<open>assert_leq\<close> record
  \<open>Success\<close>, \<open>assert_gt\<close> and \<open>assert_geq\<close> record \<open>Error\<close>; on equal operands
  \<open>assert_eq\<close> records \<open>Success\<close> and \<open>assert_uneq\<close> records \<open>Error\<close>.
\<close>

lemma ordered_int_operands:
  assumes "a <s b"
  shows "\<exists>w1 w2 w3 w4.
     assert_lt int_comparisons a b location w = Inr w1 \<and>
     result (last (infos (test_reg w1))) = Known Success \<and>
     assert_leq int_comparisons a b location w = Inr w2 \<and>
     result (last (infos (test_reg w2))) = Known Success \<and>
     assert_gt int_comparisons a b location w = Inr w3 \<and>
     result (last (infos (test_reg w3))) = Known Error \<and>
     assert_geq int_comparisons a b location w = Inr w4 \<and>
     result (last (infos (test_reg w4))) = Known Error"
proof -
  from assms have "a \<le>s b" and "\<not> b <s a" and "\<not> b \<le>s a"
    by (simp_all add: word_sless_alt word_sle_eq)
  with assms show ?thesis
    by (simp add: assert_lt_def assert_leq_def assert_gt_def assert_geq_def assert_def
        record_and_put_eq int_comparisons_simps)
qed

lemma equal_int_operands:
  "\<exists>w1 w2.
     assert_eq int_comparisons a a location w = Inr w1 \<and>
     result (last (infos (test_reg w1))) = Known Success \<and>
     assert_uneq int_comparisons a a location w = Inr w2 \<and>
     result (last (infos (test_reg w2))) = Known Error"
  by (simp add: assert_eq_def assert_uneq_def assert_def record_and_put_eq
      int_comparisons_simps)

text \<open>
  Claim C6. A call of \<open>assert\<close> with any of the six evaluated kinds returns, appends exactly
  one node to the ledger and prints exactly one line (one status tag, then the report of that
  node): no kind, the last one \<open>LEq\<close> included, runs on into another case.
\<close>

theorem assert_appends_one_node:
  assumes "type \<noteq> MemLeak"
  shows "\<exists>w' node tag.
           assert ops type val val2 location w = Inr w' \<and>
           infos (test_reg w') = infos (test_reg w) @ [node] \<and>
           length (infos (test_reg w')) = Suc (length (infos (test_reg w))) \<and>
           cout w' = cout w @
             [Text tag,
              Text ''('', Text (loc_file_name location), Text '', '', UInt (loc_line location),
              Text '':'', UInt (loc_column location), Text '':'', UInt (ms_took node),
              Text ''ns'', Text '') ['', Text (loc_function_name location), Text ''] -> '',
              Text (data node), Ch (CHR ''\<newline>'')]"
proof -
  from assert_outcome [OF assms, of ops val val2] obtain res message where
    eq: "\<And>location w. assert ops type val val2 location w =
           record_and_put res message
             (w\<lparr>test_reg := (test_reg w)\<lparr>current_location := location\<rparr>\<rparr>)"
    by blast
  show ?thesis
    by (simp add: eq record_and_put_eq)
qed

theorem assert_appends_one_node_witness:
  "LEq \<noteq> MemLeak \<and>
   (\<exists>w' node tag.
      assert int_comparisons LEq 5 1 call_site example_case = Inr w' \<and>
      infos (test_reg w') = infos (test_reg example_case) @ [node] \<and>
      length (infos (test_reg w')) = Suc (length (infos (test_reg example_case))) \<and>
      cout w' = cout example_case @
        [Text tag,
         Text ''('', Text (loc_file_name call_site), Text '', '', UInt (loc_line call_site),
         Text '':'', UInt (loc_column call_site), Text '':'', UInt (ms_took node),
         Text ''ns'', Text '') ['', Text (loc_function_name call_site), Text ''] -> '',
         Text (data node), Ch (CHR ''\<newline>'')])"
  using assert_appends_one_node [of LEq int_comparisons 5 1 call_site example_case]
  by simp

text \<open>
  Claim C8. Issuing the same assertion (same kind, same operands) twice appends two nodes that
  are equal field by field: the same result and the same message. Each node has a duration of
  its own, 0 when recorded: storing a duration in the second leaves the first as it was.
\<close>

theorem repeated_assert_identical:
  assumes "type \<noteq> MemLeak"
  shows "\<exists>w1 w2 node.
           assert ops type val val2 location w = Inr w1 \<and>
           assert ops type val val2 location' w1 = Inr w2 \<and>
           infos (test_reg w2) = infos (test_reg w) @ [node, node] \<and>
           ms_took node = 0 \<and>
           (\<forall>d. infos (test_reg (set_ms_took (Suc (length (infos (test_reg w)))) d w2)) =
                  infos (test_reg w) @ [node, node\<lparr>ms_took := d\<rparr>])"
proof -
  from assert_outcome [OF assms, of ops val val2] obtain res message where
    eq: "\<And>location w. assert ops type val val2 location w =
           record_and_put res message
             (w\<lparr>test_reg := (test_reg w)\<lparr>current_location := location\<rparr>\<rparr>)"
    by blast
  show ?thesis
    by (simp add: eq record_and_put_eq set_ms_took_def nth_append list_update_append)
qed

theorem repeated_assert_identical_witness:
  "Gt \<noteq> MemLeak \<and>
   (\<exists>w1 w2 node.
      assert int_comparisons Gt 1 5 call_site example_case = Inr w1 \<and>
      assert int_comparisons Gt 1 5 call_site w1 = Inr w2 \<and>
      infos (test_reg w2) = infos (test_reg example_case) @ [node, node] \<and>
      ms_took node = 0 \<and>
      (\<forall>d. infos (test_reg (set_ms_took (Suc (length (infos (test_reg example_case)))) d w2)) =
             infos (test_reg example_case) @ [node, node\<lparr>ms_took := d\<rparr>]))"
  using repeated_assert_identical [of Gt int_comparisons 1 5 call_site example_case call_site]
  by simp

section \<open>The error tally\<close>

text \<open>
  The invariant \<open>tally_inv\<close> is kept by every operation, one after the other.
\<close>

lemma tally_record_and_put:
  "res \<noteq> Critical \<Longrightarrow> tally_inv w \<Longrightarrow> record_and_put res message w = Inr w' \<Longrightarrow> tally_inv w'"
  by (cases res) (auto simp add: record_and_put_eq tally_inv_def)

lemma tally_assert:
  assumes "tally_inv w" and "assert ops type val val2 location w = Inr w'"
  shows "tally_inv w'"
proof (cases "type = MemLeak")
  case True
  with assms show ?thesis by (auto simp add: assert_def tally_inv_def)
next
  case False
  from assert_outcome [OF False, of ops val val2] obtain res message where
    "res \<noteq> Critical" and
    eq: "\<And>location w. assert ops type val val2 location w =
           record_and_put res message
             (w\<lparr>test_reg := (test_reg w)\<lparr>current_location := location\<rparr>\<rparr>)"
    by blast
  moreover from assms(1)
  have "tally_inv (w\<lparr>test_reg := (test_reg w)\<lparr>current_location := location\<rparr>\<rparr>)"
    by (simp add: tally_inv_def)
  ultimately show ?thesis
    using assms(2) tally_record_and_put by metis
qed

lemma tally_assert_world:
  assumes "tally_inv w" and "world_of (assert ops type val val2 location w) = Some w'"
  shows "tally_inv w'"
proof -
  from assert_returns [of ops type val val2 location w] obtain w1 where
    "assert ops type val val2 location w = Inr w1" ..
  with assms tally_assert [of w ops type val val2 location w1] show ?thesis
    by (simp add: world_of_def)
qed

lemma tally_assert_rc:
  assumes "tally_inv w" and "world_of (assert_rc location w) = Some w'"
  shows "tally_inv w'"
proof (cases "rc (test_reg w) <s 0")
  case True
  with assms show ?thesis
    by (auto simp add: assert_rc_negative world_of_def tally_inv_def)
next
  case False
  with assms show ?thesis
    by (simp add: assert_rc_def world_of_def)
qed

lemma tally_statement:
  assumes "tally_inv w" and "world_of (run_statement ops s w) = Some w'"
  shows "tally_inv w'"
proof (cases s)
  case (Alloc location)
  show ?thesis
  proof (cases "assert_rc location w")
    case (Inl h)
    with Alloc assms tally_assert_rc [of w location w'] show ?thesis
      by (simp add: ALLOC_def and_then_def)
  next
    case (Inr w1)
    with assms(1) tally_assert_rc [of w location w1] have "tally_inv w1"
      by (simp add: world_of_def)
    with Inr Alloc assms(2) show ?thesis
      by (auto simp add: ALLOC_def and_then_def world_of_def tally_inv_def split: if_splits)
  qed
next
  case (Dealloc location)
  from assms(1) have "tally_inv (w\<lparr>test_reg := (test_reg w)\<lparr>rc := rc (test_reg w) - 1\<rparr>\<rparr>)"
    by (simp add: tally_inv_def)
  with Dealloc assms(2) tally_assert_rc show ?thesis
    by (auto simp add: DEALLOC_def world_of_def split: if_splits)
next
  case (Register tst)
  with assms show ?thesis
    by (auto simp add: test_function_def world_of_def tally_inv_def)
qed (use assms tally_assert_world in \<open>auto simp add: assert_eq_def assert_uneq_def
      assert_gt_def assert_lt_def assert_geq_def assert_leq_def\<close>)

lemma tally_body:
  "tally_inv w \<Longrightarrow> world_of (run_body ops body w) = Some w' \<Longrightarrow> tally_inv w'"
proof (induction body arbitrary: w)
  case Nil
  then show ?case by (simp add: world_of_def)
next
  case (Cons s body)
  show ?case
  proof (cases "run_statement ops s w")
    case (Inl h)
    with Cons.prems tally_statement [of w ops s w'] show ?thesis
      by (simp add: and_then_def)
  next
    case (Inr w1)
    with Cons.prems(1) tally_statement [of w ops s w1] have "tally_inv w1"
      by (simp add: world_of_def)
    with Inr Cons.prems(2) Cons.IH [of w1] show ?thesis
      by (simp add: and_then_def)
  qed
qed

lemma tally_set_ms_took: "tally_inv u \<Longrightarrow> tally_inv (set_ms_took i d u)"
  by (simp add: tally_inv_def set_ms_took_def length_filter_update)

lemma tally_run_tests:
  assumes "\<forall>f u u'. tally_inv u \<longrightarrow> world_of (code f u) = Some u' \<longrightarrow> tally_inv u'"
    and "tally_inv w" and "world_of (run_tests code w) = Some w'"
  shows "tally_inv w'"
proof (rule run_tests_preserves [where P = tally_inv, OF assms(1) _ _ assms(2,3)])
  show "\<forall>u n. tally_inv u \<longrightarrow> tally_inv (u\<lparr>ticks := n\<rparr>)"
    by (simp add: tally_inv_def)
  show "\<forall>u i d. tally_inv u \<longrightarrow> tally_inv (set_ms_took i d u)"
    by (simp add: tally_set_ms_took)
qed

lemma tally_test_dtor:
  assumes "tally_inv w" and "world_of (test_dtor here w) = Some w'"
  shows "tally_inv w'"
proof (cases "rc (test_reg w) <s 0")
  case True
  with assms show ?thesis
    by (auto simp add: test_dtor_def assert_rc_negative and_then_def world_of_def tally_inv_def)
next
  case False
  with assms show ?thesis
    by (auto simp add: test_dtor_def assert_rc_def and_then_def world_of_def tally_inv_def
        summary_def since_time_def now_def print_def)
qed

text \<open>
  Claim C2, as the code has it. The tally counts the \<open>Error\<close> nodes only. The invariant
  \<open>tally_inv\<close> holds when the case is declared and in every world that a case body made of
  library calls, the runner over such bodies, or the destructor leaves behind, the world of an
  abort included. Recording a node (\<open>put_log\<close>) does not touch the tally; drawing it
  (\<open>draw_case\<close>) adds one exactly when the node's result is \<open>Error\<close>, so a \<open>Critical\<close>
  or \<open>Success\<close> node leaves the tally as it was.
\<close>

theorem tally_counts_failed_only:
  "tally_inv (TEST case_name here clk) \<and>
   (tally_inv w \<and> world_of (run_body ops body w) = Some w' \<longrightarrow> tally_inv w') \<and>
   (tally_inv w \<and> world_of (run_tests (\<lambda>f. run_body ops (bodies f)) w) = Some w' \<longrightarrow>
      tally_inv w') \<and>
   (tally_inv w \<and> world_of (test_dtor here w) = Some w' \<longrightarrow> tally_inv w') \<and>
   errors (test_reg (snd (put_log res message w))) = errors (test_reg w) \<and>
   (result node = Known res \<longrightarrow>
      (\<exists>w'. draw_case node w = Inr w' \<and>
            errors (test_reg w') = errors (test_reg w) + (if res = Error then 1 else 0)))"
proof -
  have "tally_inv (TEST case_name here clk)"
    by (simp add: tally_inv_def TEST_def new_test_simps)
  moreover have "tally_inv w \<and> world_of (run_body ops body w) = Some w' \<longrightarrow> tally_inv w'"
    using tally_body by blast
  moreover have "tally_inv w \<and>
      world_of (run_tests (\<lambda>f. run_body ops (bodies f)) w) = Some w' \<longrightarrow> tally_inv w'"
    using tally_run_tests [of "\<lambda>f. run_body ops (bodies f)" w w'] tally_body by blast
  moreover have "tally_inv w \<and> world_of (test_dtor here w) = Some w' \<longrightarrow> tally_inv w'"
    using tally_test_dtor by blast
  moreover have "errors (test_reg (snd (put_log res message w))) = errors (test_reg w)"
    by (simp add: put_log_def Let_def)
  moreover have "result node = Known res \<longrightarrow>
      (\<exists>w'. draw_case node w = Inr w' \<and>
            errors (test_reg w') = errors (test_reg w) + (if res = Error then 1 else 0))"
    by (simp add: draw_case_known)
  ultimately show ?thesis by blast
qed

theorem tally_counts_failed_only_witness:
  "tally_inv example_case \<and>
   (\<exists>w'. world_of (run_body int_comparisons (example_bodies 0) example_case) = Some w' \<and>
         tally_inv w') \<and>
   (\<exists>w'. world_of (run_tests (\<lambda>f. run_body int_comparisons (example_bodies f)) example_case)
           = Some w' \<and> tally_inv w') \<and>
   (\<exists>w'. world_of (test_dtor header_site example_case) = Some w' \<and> tally_inv w') \<and>
   (\<exists>w'. draw_case \<lparr>ms_took = 0, result = Known Error, data = '''', func = Indeterminate\<rparr>
            example_case = Inr w' \<and>
          errors (test_reg w') = errors (test_reg example_case) + 1)"
proof -
  have a: "tally_inv example_case"
    by (simp add: tally_inv_def example_case_simps new_test_simps)
  obtain w1 where
    b: "world_of (run_body int_comparisons (example_bodies 0) example_case) = Some w1"
    by (simp add: example_body_result world_of_def example_case_simps new_test_simps)
  obtain w2 where
    c: "world_of (run_tests (\<lambda>f. run_body int_comparisons (example_bodies f)) example_case)
          = Some w2"
    by (simp add: run_tests_def calculate_time_def now_def example_body_result and_then_def
        world_of_def example_case_simps new_test_simps)
  obtain w3 where d: "world_of (test_dtor header_site example_case) = Some w3"
    by (simp add: test_dtor_def assert_rc_def and_then_def world_of_def example_case_simps
        new_test_simps)
  from a b
    tally_counts_failed_only [of _ _ _ example_case int_comparisons "example_bodies 0" w1]
  have "tally_inv w1" by blast
  moreover from a c
    tally_counts_failed_only [of _ _ _ example_case int_comparisons _ w2 example_bodies]
  have "tally_inv w2" by blast
  moreover from a d
    tally_counts_failed_only [of _ header_site _ example_case _ _ w3]
  have "tally_inv w3" by blast
  moreover from
    tally_counts_failed_only [of 0 header_site example_clock example_case int_comparisons "[]"
      example_case example_bodies Error "[]"
      "\<lparr>ms_took = 0, result = Known Error, data = '''', func = Indeterminate\<rparr>"]
  have "\<exists>w'. draw_case \<lparr>ms_took = 0, result = Known Error, data = '''', func = Indeterminate\<rparr>
            example_case = Inr w' \<and>
          errors (test_reg w') = errors (test_reg example_case) + 1"
    by simp
  ultimately show ?thesis using a b c d by blast
qed

text \<open>
  Claim C2 as stated fails: a \<^verbatim>\<open>DEALLOC\<close> in the fresh sample case aborts with one
  \<open>Critical\<close> node in the ledger and a tally of 0, so the tally is not the number of
  \<open>Error\<close> or \<open>Critical\<close> nodes (and the summary printed there reports 0). Nor does the
  equation hold at every point: between the recording of an \<open>Error\<close> node and its drawing the
  ledger is one ahead of the tally.
\<close>

theorem tally_ignores_critical:
  "map_option claimed_tally_inv (world_of (DEALLOC call_site example_case)) = Some False \<and>
   map_option (errors \<circ> test_reg) (world_of (DEALLOC call_site example_case)) = Some 0 \<and>
   map_option (map result \<circ> infos \<circ> test_reg) (world_of (DEALLOC call_site example_case)) =
     Some [Known Critical] \<and>
   claimed_tally_inv (snd (put_log Error ''Given values are not equal, expected equal''
     example_case)) = False"
  by (simp add: DEALLOC_example world_of_def claimed_tally_inv_def example_case_simps
      new_test_simps put_log_def Let_def)

section \<open>The resource counter guard\<close>

text \<open>
  Claim C10. When the resource counter is not negative, \<open>assert_rc\<close> returns the world it was
  given: no node is appended, nothing is printed, the clock is not read, and every member of
  the test object is unchanged.
\<close>

theorem assert_rc_no_op:
  assumes "\<not> rc (test_reg w) <s 0"
  shows "assert_rc location w = Inr w"
  using assms by (simp add: assert_rc_def)

theorem assert_rc_no_op_witness:
  "\<not> rc (test_reg example_case) <s 0 \<and> assert_rc call_site example_case = Inr example_case"
  using assert_rc_no_op [of example_case call_site]
  by (simp add: example_case_simps new_test_simps)

text \<open>
  The guard on a negative counter. \<open>assert_rc\<close> appends a \<open>Critical\<close> node with the message
  "(RC < 0) Deallocating not allocated value", prints the line of that node and, right after
  it, the summary, and the process is aborted: whatever was to run next does not run. No
  abort comes from anywhere else: an \<open>assert\<close> of any kind returns; a library call is aborted
  only by the guard of \<^verbatim>\<open>ALLOC\<close> or \<^verbatim>\<open>DEALLOC\<close>, the destructor only by its guard, and
  \<open>run_tests\<close> only when a function it calls is.
\<close>

lemma guard_is_the_only_abort:
  "(rc (test_reg w) <s 0 \<longrightarrow>
      (\<exists>w'. assert_rc location w = Inl (Aborted w') \<and>
            infos (test_reg w') = infos (test_reg w) @
              [\<lparr>ms_took = 0, result = Known Critical,
                data = ''(RC < 0) Deallocating not allocated value'',
                func = Indeterminate\<rparr>] \<and>
            cout w' = cout w @
              [Text ''[CRITICAL]: '', Text ''('',
               Text (loc_file_name (current_location (test_reg w))), Text '', '',
               UInt (loc_line (current_location (test_reg w))), Text '':'',
               UInt (loc_column (current_location (test_reg w))), Text '':'',
               UInt 0, Text ''ns'', Text '') ['',
               Text (loc_function_name (current_location (test_reg w))), Text ''] -> '',
               Text ''(RC < 0) Deallocating not allocated value'', Ch (CHR ''\<newline>''),
               Text ''\<newline>[SUMMARY]\<newline>'', Text ''File: '',
               Text (loc_file_name (current_location (test_reg w))), Ch (CHR ''\<newline>''),
               Text ''Error/s: '', UInt (errors (test_reg w)), Ch (CHR ''\<newline>''),
               Long (clock w (ticks w) - main_ms (test_reg w)), Text ''ns\<newline>''] \<and>
            and_then (assert_rc location w) continue = Inl (Aborted w'))) \<and>
   (\<exists>w'. assert ops type val val2 location w = Inr w') \<and>
   (run_statement ops s w = Inl (Aborted w') \<longrightarrow>
      (\<exists>l. s = Alloc l \<and> rc (test_reg w) <s 0) \<or>
      (\<exists>l. s = Dealloc l \<and> rc (test_reg w) - 1 <s 0)) \<and>
   (test_dtor here w = Inl (Aborted w') \<longrightarrow> rc (test_reg w) <s 0) \<and>
   (run_tests code w = Inl (Aborted w') \<longrightarrow> (\<exists>f u. code f u = Inl (Aborted w')))"
proof -
  have "rc (test_reg w) <s 0 \<longrightarrow>
      (\<exists>w'. assert_rc location w = Inl (Aborted w') \<and>
            infos (test_reg w') = infos (test_reg w) @
              [\<lparr>ms_took = 0, result = Known Critical,
                data = ''(RC < 0) Deallocating not allocated value'',
                func = Indeterminate\<rparr>] \<and>
            cout w' = cout w @
              [Text ''[CRITICAL]: '', Text ''('',
               Text (loc_file_name (current_location (test_reg w))), Text '', '',
               UInt (loc_line (current_location (test_reg w))), Text '':'',
               UInt (loc_column (current_location (test_reg w))), Text '':'',
               UInt 0, Text ''ns'', Text '') ['',
               Text (loc_function_name (current_location (test_reg w))), Text ''] -> '',
               Text ''(RC < 0) Deallocating not allocated value'', Ch (CHR ''\<newline>''),
               Text ''\<newline>[SUMMARY]\<newline>'', Text ''File: '',
               Text (loc_file_name (current_location (test_reg w))), Ch (CHR ''\<newline>''),
               Text ''Error/s: '', UInt (errors (test_reg w)), Ch (CHR ''\<newline>''),
               Long (clock w (ticks w) - main_ms (test_reg w)), Text ''ns\<newline>''] \<and>
            and_then (assert_rc location w) continue = Inl (Aborted w'))"
    by (simp add: assert_rc_negative and_then_def)
  moreover have "\<exists>w'. assert ops type val val2 location w = Inr w'"
    by (rule assert_returns)
  moreover have "run_statement ops s w = Inl (Aborted w') \<longrightarrow>
      (\<exists>l. s = Alloc l \<and> rc (test_reg w) <s 0) \<or>
      (\<exists>l. s = Dealloc l \<and> rc (test_reg w) - 1 <s 0)"
    using run_statement_abort by blast
  moreover have "test_dtor here w = Inl (Aborted w') \<longrightarrow> rc (test_reg w) <s 0"
    using test_dtor_abort by blast
  moreover have "run_tests code w = Inl (Aborted w') \<longrightarrow> (\<exists>f u. code f u = Inl (Aborted w'))"
    using run_tests_abort by blast
  ultimately show ?thesis by blast
qed

lemma guard_is_the_only_abort_example:
  "rc (test_reg negative_case) <s 0 \<and>
   (\<exists>w'. assert_rc call_site negative_case = Inl (Aborted w') \<and>
         infos (test_reg w') =
           [\<lparr>ms_took = 0, result = Known Critical,
             data = ''(RC < 0) Deallocating not allocated value'', func = Indeterminate\<rparr>] \<and>
         and_then (assert_rc call_site negative_case) (ALLOC call_site) = Inl (Aborted w')) \<and>
   (\<exists>w'. run_statement int_comparisons (Dealloc call_site) example_case = Inl (Aborted w')) \<and>
   rc (test_reg example_case) - 1 <s 0 \<and>
   (\<exists>w'. test_dtor header_site negative_case = Inl (Aborted w')) \<and>
   (\<exists>w' f u. run_tests (\<lambda>f. run_body int_comparisons (example_bodies f)) example_case
              = Inl (Aborted w') \<and>
            run_body int_comparisons (example_bodies f) u = Inl (Aborted w'))"
proof -
  have neg: "rc (test_reg negative_case) <s 0"
    by (simp add: negative_case_simps)
  obtain w1 where s: "run_statement int_comparisons (Dealloc call_site) example_case
      = Inl (Aborted w1)"
    by (simp add: DEALLOC_example)
  obtain w2 where d: "test_dtor header_site negative_case = Inl (Aborted w2)"
    by (simp add: test_dtor_def assert_rc_negative and_then_def neg)
  obtain w3 where r: "run_tests (\<lambda>f. run_body int_comparisons (example_bodies f)) example_case
      = Inl (Aborted w3)"
    by (simp add: run_tests_def calculate_time_def now_def example_body_result and_then_def
        example_case_simps new_test_simps)
  from neg
    guard_is_the_only_abort [of negative_case call_site "ALLOC call_site"
      int_comparisons Eq 0 0 "Dealloc call_site" w1 header_site
      "\<lambda>f. run_body int_comparisons (example_bodies f)"]
  have "\<exists>w'. assert_rc call_site negative_case = Inl (Aborted w') \<and>
         infos (test_reg w') =
           [\<lparr>ms_took = 0, result = Known Critical,
             data = ''(RC < 0) Deallocating not allocated value'', func = Indeterminate\<rparr>] \<and>
         and_then (assert_rc call_site negative_case) (ALLOC call_site) = Inl (Aborted w')"
    by (auto simp add: negative_case_simps)
  moreover from s
    guard_is_the_only_abort [of example_case call_site "ALLOC call_site"
      int_comparisons Eq 0 0 "Dealloc call_site" w1 header_site
      "\<lambda>f. run_body int_comparisons (example_bodies f)"]
  have "rc (test_reg example_case) - 1 <s 0" by auto
  moreover from r
    guard_is_the_only_abort [of example_case call_site "ALLOC call_site"
      int_comparisons Eq 0 0 "Dealloc call_site" w3 header_site
      "\<lambda>f. run_body int_comparisons (example_bodies f)"]
  have "\<exists>f u. run_body int_comparisons (example_bodies f) u = Inl (Aborted w3)" by blast
  ultimately show ?thesis using neg s d r by blast
qed

text \<open>
  An assertion only accumulates. For each of the six evaluated kinds \<open>assert\<close> returns, and
  the world it returns is the world it was given with the location set, one node appended
  (never a \<open>Critical\<close> one), the tally one higher exactly when the node is an \<open>Error\<close>, and
  one line printed; the counter and the clock are as they were.
\<close>

lemma assert_accumulates:
  assumes "type \<noteq> MemLeak"
  shows "\<exists>res message. res \<noteq> Critical \<and>
     assert ops type val val2 location w =
       Inr (w\<lparr>test_reg := (test_reg w)
                \<lparr>current_location := location,
                 infos := infos (test_reg w) @
                   [\<lparr>ms_took = 0, result = Known res, data = message, func = Indeterminate\<rparr>],
                 errors := errors (test_reg w) + (if res = Error then 1 else 0)\<rparr>,
              cout := cout w @
                [Text (case res of Critical \<Rightarrow> ''[CRITICAL]: '' | Success \<Rightarrow> ''[SUCCESS]: ''
                       | Error \<Rightarrow> ''[FAILED]: ''),
                 Text ''('', Text (loc_file_name location), Text '', '',
                 UInt (loc_line location), Text '':'', UInt (loc_column location), Text '':'',
                 UInt 0, Text ''ns'', Text '') ['', Text (loc_function_name location),
                 Text ''] -> '', Text message, Ch (CHR ''\<newline>'')]\<rparr>)"
proof -
  from assert_outcome [OF assms, of ops val val2] obtain res message where
    "res \<noteq> Critical" and
    "assert ops type val val2 location w =
       record_and_put res message (w\<lparr>test_reg := (test_reg w)\<lparr>current_location := location\<rparr>\<rparr>)"
    by blast
  then show ?thesis
    by (intro exI [of _ res] exI [of _ message]) (simp add: record_and_put_eq)
qed

text \<open>
  Claim C3, on the scenario of the specification. What the claim says of the guard and of the
  assertions holds (the lemmas above), but the negative counter is not the only way for the
  process to die. Take \<^verbatim>\<open>TEST(math)\<close> with the two assertions of the scenario, and
  \<^verbatim>\<open>TEST_MAIN\<close>. The counter is 0; the body, called by \<open>run_tests\<close>, returns with a
  \<open>Success\<close> and an \<open>Error\<close> node, two lines printed, a tally of 1 and the counter still 0.
  Then the loop of \<open>run_tests\<close> compares the \<open>func\<close> of the first node with \<^verbatim>\<open>nullptr\<close>.
  \<open>put_log\<close> never assigned that member, and \<open>test_log_node\<close> gives a default to \<open>ms_took\<close>
  only: the pointer is indeterminate, and neither \<open>run_tests\<close> nor \<^verbatim>\<open>main\<close> has a defined
  behaviour, with no negative counter and no guard involved.
\<close>

theorem assertion_nodes_break_run_tests:
  "rc (test_reg example_case) = 0 \<and>
   math_code 0 (example_case\<lparr>ticks := 2\<rparr>) =
     Inr (example_case
            \<lparr>ticks := 2,
             test_reg := (test_reg example_case)
               \<lparr>errors := 1,
                current_location := call_site,
                infos :=
                  [\<lparr>ms_took = 0, result = Known Success, data = ''OK'', func = Indeterminate\<rparr>,
                   \<lparr>ms_took = 0, result = Known Error,
                    data = ''Given values are not greater, expected greater'',
                    func = Indeterminate\<rparr>]\<rparr>,
             cout :=
               [Text ''[SUCCESS]: '', Text ''('', Text ''math.cpp'', Text '', '', UInt 4,
                Text '':'', UInt 5, Text '':'', UInt 0, Text ''ns'', Text '') ['',
                Text ''void math()'', Text ''] -> '', Text ''OK'', Ch (CHR ''\<newline>''),
                Text ''[FAILED]: '', Text ''('', Text ''math.cpp'', Text '', '', UInt 4,
                Text '':'', UInt 5, Text '':'', UInt 0, Text ''ns'', Text '') ['',
                Text ''void math()'', Text ''] -> '',
                Text ''Given values are not greater, expected greater'',
                Ch (CHR ''\<newline>'')]\<rparr>) \<and>
   map_option (rc \<circ> test_reg) (world_of (math_code 0 (example_case\<lparr>ticks := 2\<rparr>))) =
     Some 0 \<and>
   run_tests math_code example_case = Inl Undefined \<and>
   TEST_MAIN math_code header_site example_case = Inl Undefined"
proof -
  have a: "rc (test_reg example_case) = 0"
    by (simp add: example_case_simps new_test_simps)
  have b: "math_code 0 (example_case\<lparr>ticks := 2\<rparr>) =
     Inr (example_case
            \<lparr>ticks := 2,
             test_reg := (test_reg example_case)
               \<lparr>errors := 1,
                current_location := call_site,
                infos :=
                  [\<lparr>ms_took = 0, result = Known Success, data = ''OK'', func = Indeterminate\<rparr>,
                   \<lparr>ms_took = 0, result = Known Error,
                    data = ''Given values are not greater, expected greater'',
                    func = Indeterminate\<rparr>]\<rparr>,
             cout :=
               [Text ''[SUCCESS]: '', Text ''('', Text ''math.cpp'', Text '', '', UInt 4,
                Text '':'', UInt 5, Text '':'', UInt 0, Text ''ns'', Text '') ['',
                Text ''void math()'', Text ''] -> '', Text ''OK'', Ch (CHR ''\<newline>''),
                Text ''[FAILED]: '', Text ''('', Text ''math.cpp'', Text '', '', UInt 4,
                Text '':'', UInt 5, Text '':'', UInt 0, Text ''ns'', Text '') ['',
                Text ''void math()'', Text ''] -> '',
                Text ''Given values are not greater, expected greater'',
                Ch (CHR ''\<newline>'')]\<rparr>)"
    by (simp add: math_code_def math_body_result example_case_simps new_test_simps)
  have b': "map_option (rc \<circ> test_reg)
      (world_of (math_code 0 (example_case\<lparr>ticks := 2\<rparr>))) = Some 0"
    by (simp add: b world_of_def example_case_simps new_test_simps)
  have c: "run_tests math_code example_case = Inl Undefined"
    by (simp add: run_tests_def calculate_time_def now_def and_then_def math_code_def
        math_body_result set_ms_took_def loop_turn_def
        example_case_simps new_test_simps Let_def run_loop.simps)
  have d: "TEST_MAIN math_code header_site example_case = Inl Undefined"
    by (simp add: TEST_MAIN_def c and_then_def)
  show ?thesis by (intro conjI a b b' c d)
qed

text \<open>
  Claim C4, as the code has it. \<^verbatim>\<open>ALLOC\<close> checks the counter before it increments it: with
  a negative counter it is the guard's abort, the counter unchanged; otherwise the counter is
  incremented. \<^verbatim>\<open>DEALLOC\<close> decrements first and checks afterwards: it is the guard applied to
  the decremented counter, so it aborts exactly when the decremented counter is negative, and
  the world of the abort holds the decremented counter. At teardown the destructor runs the
  guard once more: with a negative counter it is the guard's abort, after the one \<open>Critical\<close>
  line and the one summary that the guard prints; otherwise it prints the summary and returns.
  (\<^verbatim>\<open>++rc\<close> at \<open>INT_MAX\<close> and \<^verbatim>\<open>--rc\<close> at \<open>INT_MIN\<close> are undefined and left out.)
\<close>

theorem guard_before_acquire_after_release:
  "(rc (test_reg w) <s 0 \<longrightarrow>
      ALLOC location w = assert_rc location w \<and>
      (\<exists>w'. ALLOC location w = Inl (Aborted w') \<and> rc (test_reg w') = rc (test_reg w))) \<and>
   (\<not> rc (test_reg w) <s 0 \<and> rc (test_reg w) \<noteq> 0x7FFFFFFF \<longrightarrow>
      ALLOC location w = Inr (w\<lparr>test_reg := (test_reg w)\<lparr>rc := rc (test_reg w) + 1\<rparr>\<rparr>)) \<and>
   (rc (test_reg w) \<noteq> 0x80000000 \<and> rc (test_reg w) - 1 <s 0 \<longrightarrow>
      DEALLOC location w =
        assert_rc location (w\<lparr>test_reg := (test_reg w)\<lparr>rc := rc (test_reg w) - 1\<rparr>\<rparr>) \<and>
      (\<exists>w'. DEALLOC location w = Inl (Aborted w') \<and> rc (test_reg w') = rc (test_reg w) - 1)) \<and>
   (rc (test_reg w) \<noteq> 0x80000000 \<and> \<not> rc (test_reg w) - 1 <s 0 \<longrightarrow>
      DEALLOC location w = Inr (w\<lparr>test_reg := (test_reg w)\<lparr>rc := rc (test_reg w) - 1\<rparr>\<rparr>)) \<and>
   (rc (test_reg w) <s 0 \<longrightarrow>
      test_dtor here w = assert_rc here w \<and>
      (\<exists>w'. test_dtor here w = Inl (Aborted w') \<and> rc (test_reg w') = rc (test_reg w) \<and>
            cout w' = cout w @
              [Text ''[CRITICAL]: '', Text ''('',
               Text (loc_file_name (current_location (test_reg w))), Text '', '',
               UInt (loc_line (current_location (test_reg w))), Text '':'',
               UInt (loc_column (current_location (test_reg w))), Text '':'',
               UInt 0, Text ''ns'', Text '') ['',
               Text (loc_function_name (current_location (test_reg w))), Text ''] -> '',
               Text ''(RC < 0) Deallocating not allocated value'', Ch (CHR ''\<newline>''),
               Text ''\<newline>[SUMMARY]\<newline>'', Text ''File: '',
               Text (loc_file_name (current_location (test_reg w))), Ch (CHR ''\<newline>''),
               Text ''Error/s: '', UInt (errors (test_reg w)), Ch (CHR ''\<newline>''),
               Long (clock w (ticks w) - main_ms (test_reg w)), Text ''ns\<newline>''])) \<and>
   (\<not> rc (test_reg w) <s 0 \<longrightarrow>
      test_dtor here w = Inr (summary w) \<and>
      cout (summary w) = cout w @
        [Text ''\<newline>[SUMMARY]\<newline>'', Text ''File: '',
         Text (loc_file_name (current_location (test_reg w))), Ch (CHR ''\<newline>''),
         Text ''Error/s: '', UInt (errors (test_reg w)), Ch (CHR ''\<newline>''),
         Long (clock w (ticks w) - main_ms (test_reg w)), Text ''ns\<newline>''])"
proof -
  have out: "cout (summary w) = cout w @
        [Text ''\<newline>[SUMMARY]\<newline>'', Text ''File: '',
         Text (loc_file_name (current_location (test_reg w))), Ch (CHR ''\<newline>''),
         Text ''Error/s: '', UInt (errors (test_reg w)), Ch (CHR ''\<newline>''),
         Long (clock w (ticks w) - main_ms (test_reg w)), Text ''ns\<newline>'']"
    by (simp add: summary_def since_time_def now_def print_def)
  show ?thesis
    by (simp add: ALLOC_def DEALLOC_def test_dtor_def assert_rc_negative and_then_def out)
      (simp add: assert_rc_def)
qed

theorem guard_before_acquire_after_release_witness:
  "rc (test_reg negative_case) = - 1 \<and> rc (test_reg negative_case) <s 0 \<and>
   ALLOC call_site negative_case = assert_rc call_site negative_case \<and>
   (\<exists>w'. ALLOC call_site negative_case = Inl (Aborted w') \<and>
         rc (test_reg w') = rc (test_reg negative_case)) \<and>
   test_dtor header_site negative_case = assert_rc header_site negative_case \<and>
   (\<exists>w'. test_dtor header_site negative_case = Inl (Aborted w') \<and>
         rc (test_reg w') = rc (test_reg negative_case)) \<and>
   rc (test_reg example_case) = 0 \<and>
   \<not> rc (test_reg example_case) <s 0 \<and> rc (test_reg example_case) \<noteq> 0x7FFFFFFF \<and>
   ALLOC call_site example_case =
     Inr (example_case\<lparr>test_reg := (test_reg example_case)\<lparr>rc := 1\<rparr>\<rparr>) \<and>
   rc (test_reg example_case) \<noteq> 0x80000000 \<and> rc (test_reg example_case) - 1 <s 0 \<and>
   DEALLOC call_site example_case = assert_rc call_site negative_case \<and>
   (\<exists>w'. DEALLOC call_site example_case = Inl (Aborted w') \<and>
         rc (test_reg w') = rc (test_reg example_case) - 1) \<and>
   test_dtor header_site example_case = Inr (summary example_case) \<and>
   length (cout (summary example_case)) = 9 \<and>
   DEALLOC call_site (example_case\<lparr>test_reg := (test_reg example_case)\<lparr>rc := 1\<rparr>\<rparr>) =
     Inr (example_case\<lparr>test_reg := (test_reg example_case)\<lparr>rc := 0\<rparr>\<rparr>)"
proof -
  let ?allocated = "example_case\<lparr>test_reg := (test_reg example_case)\<lparr>rc := 1\<rparr>\<rparr>"
  note neg = guard_before_acquire_after_release [of negative_case call_site header_site]
  note fresh = guard_before_acquire_after_release [of example_case call_site header_site]
  note alloc = guard_before_acquire_after_release [of ?allocated call_site header_site]
  have n: "rc (test_reg negative_case) = - 1" "rc (test_reg negative_case) <s 0"
    by (simp_all add: negative_case_simps)
  have e: "rc (test_reg example_case) = 0"
    "\<not> rc (test_reg example_case) <s 0" "rc (test_reg example_case) \<noteq> 0x7FFFFFFF"
    "rc (test_reg example_case) \<noteq> 0x80000000" "rc (test_reg example_case) - 1 <s 0"
    by (simp_all add: example_case_simps new_test_simps)
  have a: "rc (test_reg ?allocated) \<noteq> 0x80000000 \<and> \<not> rc (test_reg ?allocated) - 1 <s 0"
    by simp
  have d: "example_case\<lparr>test_reg := (test_reg example_case)
             \<lparr>rc := rc (test_reg example_case) - 1\<rparr>\<rparr> = negative_case"
    by (simp add: negative_case_def example_case_simps new_test_simps)
  note 1 = neg [THEN conjunct1, THEN mp, OF n(2)]
  note t = neg [THEN conjunct2, THEN conjunct2, THEN conjunct2, THEN conjunct2, THEN conjunct1,
      THEN mp, OF n(2)]
  note 2 = t [THEN conjunct1]
  from t [THEN conjunct2]
  have 9: "\<exists>w'. test_dtor header_site negative_case = Inl (Aborted w') \<and>
         rc (test_reg w') = rc (test_reg negative_case)"
    by auto
  from fresh [THEN conjunct2, THEN conjunct1, THEN mp, OF conjI [OF e(2) e(3)]]
  have 4: "ALLOC call_site example_case = Inr ?allocated"
    by (simp add: example_case_simps new_test_simps)
  note 5 = fresh [THEN conjunct2, THEN conjunct2, THEN conjunct1, THEN mp,
      OF conjI [OF e(4) e(5)], unfolded d]
  from fresh [THEN conjunct2, THEN conjunct2, THEN conjunct2, THEN conjunct2, THEN conjunct2,
      THEN mp, OF e(2)]
  have 6: "test_dtor header_site example_case = Inr (summary example_case)"
    and 7: "length (cout (summary example_case)) = 9"
    by (simp_all add: example_case_simps)
  from alloc [THEN conjunct2, THEN conjunct2, THEN conjunct2, THEN conjunct1, THEN mp, OF a]
  have 8: "DEALLOC call_site ?allocated =
      Inr (example_case\<lparr>test_reg := (test_reg example_case)\<lparr>rc := 0\<rparr>\<rparr>)"
    by simp
  show ?thesis
    by (intro conjI n e 1 [THEN conjunct1] 1 [THEN conjunct2] 2 9 4 5 [THEN conjunct1]
        5 [THEN conjunct2] 6 7 8)
qed

text \<open>
  Claim C4 as stated fails for the release. In the fresh sample case the guard passes on the
  world before the release, yet \<^verbatim>\<open>DEALLOC\<close> aborts and leaves the counter at -1: the check
  that fired ran after the decrement. With the counter already at -1 the guard alone stops at
  -1, but \<^verbatim>\<open>DEALLOC\<close> stops at -2: no check ran before the decrement.
\<close>

theorem release_guard_runs_after_decrement:
  "assert_rc call_site example_case = Inr example_case \<and>
   isl (DEALLOC call_site example_case) \<and>
   map_option (rc \<circ> test_reg) (world_of (DEALLOC call_site example_case)) = Some (- 1) \<and>
   map_option (rc \<circ> test_reg) (world_of (assert_rc call_site negative_case)) = Some (- 1) \<and>
   map_option (rc \<circ> test_reg) (world_of (DEALLOC call_site negative_case)) = Some (- 2)"
proof -
  have "assert_rc call_site example_case = Inr example_case"
    by (simp add: assert_rc_def example_case_simps new_test_simps)
  moreover have "isl (DEALLOC call_site example_case)"
    by (simp add: DEALLOC_example)
  moreover have
    "map_option (rc \<circ> test_reg) (world_of (DEALLOC call_site example_case)) = Some (- 1)"
    by (simp add: DEALLOC_example world_of_def)
  moreover have
    "map_option (rc \<circ> test_reg) (world_of (assert_rc call_site negative_case)) = Some (- 1)"
    by (simp add: assert_rc_abort_rc negative_case_simps)
  moreover have
    "map_option (rc \<circ> test_reg) (world_of (DEALLOC call_site negative_case)) = Some (- 2)"
  proof -
    have "rc (test_reg (negative_case\<lparr>test_reg := (test_reg negative_case)\<lparr>rc := - 2\<rparr>\<rparr>)) <s 0"
      by (simp add: word_sless_alt)
    from assert_rc_abort_rc [OF this, of call_site] show ?thesis
      by (simp add: DEALLOC_def negative_case_simps)
  qed
  ultimately show ?thesis by blast
qed

section \<open>The runner\<close>

text \<open>
  Claim C7. \<open>run_tests\<close> takes \<^verbatim>\<open>infos.back()\<close> without a test for emptiness: when the
  ledger is empty once the case body has returned, the call has no defined behaviour; and
  whenever \<open>run_tests\<close> returns, the body had returned and left a ledger that is not empty.
\<close>

theorem run_tests_needs_a_node:
  "(calculate_time code (test_func (test_reg w)) w = Inr (d, w1) \<and> infos (test_reg w1) = [] \<longrightarrow>
      run_tests code w = Inl Undefined) \<and>
   (run_tests code w = Inr w' \<longrightarrow>
      (\<exists>d w1. calculate_time code (test_func (test_reg w)) w = Inr (d, w1) \<and>
              infos (test_reg w1) \<noteq> []))"
  by (auto simp add: run_tests_def and_then_def split: sum.splits if_splits)

theorem run_tests_needs_a_node_witness:
  "(\<exists>d w1. calculate_time (\<lambda>f w. Inr w) (test_func (test_reg example_case)) example_case
             = Inr (d, w1) \<and> infos (test_reg w1) = []) \<and>
   run_tests (\<lambda>f w. Inr w) example_case = Inl Undefined \<and>
   (\<exists>w'. run_tests (\<lambda>f. run_body int_comparisons (runner_bodies f)) example_case = Inr w') \<and>
   (\<exists>d w1. calculate_time (\<lambda>f. run_body int_comparisons (runner_bodies f))
             (test_func (test_reg example_case)) example_case = Inr (d, w1) \<and>
           infos (test_reg w1) \<noteq> [])"
proof -
  have e: "calculate_time (\<lambda>f w. Inr w) (test_func (test_reg example_case)) example_case
             = Inr (3000, example_case\<lparr>ticks := 3\<rparr>)"
    by (simp add: calculate_time_def now_def example_case_simps new_test_simps
        example_clock_def)
  have "infos (test_reg (example_case\<lparr>ticks := 3\<rparr>)) = []"
    by (simp add: example_case_simps new_test_simps)
  with e run_tests_needs_a_node [of "\<lambda>f w. Inr w" example_case 3000 "example_case\<lparr>ticks := 3\<rparr>"]
  have "run_tests (\<lambda>f w. Inr w) example_case = Inl Undefined"
    and "\<exists>d w1. calculate_time (\<lambda>f w. Inr w) (test_func (test_reg example_case)) example_case
             = Inr (d, w1) \<and> infos (test_reg w1) = []"
    by simp_all
  moreover from runner_result
    run_tests_needs_a_node [of "\<lambda>f. run_body int_comparisons (runner_bodies f)" example_case]
  have "\<exists>d w1. calculate_time (\<lambda>f. run_body int_comparisons (runner_bodies f))
             (test_func (test_reg example_case)) example_case = Inr (d, w1) \<and>
           infos (test_reg w1) \<noteq> []"
    by simp
  ultimately show ?thesis using runner_result by simp
qed




text \<open>
  The runner returns only on a ledger in which every node holds a pointer that was assigned.
  A node recorded by an assertion never had its \<open>func\<close> assigned (\<open>put_log\<close> sets the
  result and the message only), and the loop compares that pointer with \<^verbatim>\<open>nullptr\<close>. So a
  case body with a single assertion already takes \<open>run_tests\<close> outside defined behaviour.
\<close>

lemma run_tests_after_assertion:
  "run_tests (\<lambda>f. run_body int_comparisons [Assert_eq 4 4 call_site]) example_case
     = Inl Undefined"
  by (simp add: run_tests_def calculate_time_def now_def and_then_def assert_eq_def assert_def
      record_and_put_eq int_comparisons_simps set_ms_took_def loop_turn_def
      example_case_simps new_test_simps Let_def run_loop.simps)

section \<open>Which location is reported\<close>

text \<open>
  Every operation commutes with a refill of the four members that \<open>fill_infos\<close> sets.
\<close>

lemma on_world_simps:
  "on_world g (Inr w) = Inr (g w)"
  "on_world g (Inl (Aborted w)) = Inl (Aborted (g w))"
  "on_world g (Inl Undefined) = Inl Undefined"
  by (simp_all add: on_world_def)

lemma refill_simps:
  "rc (test_reg (refill l w)) = rc (test_reg w)"
  "errors (test_reg (refill l w)) = errors (test_reg w)"
  "infos (test_reg (refill l w)) = infos (test_reg w)"
  "rc_infos (test_reg (refill l w)) = rc_infos (test_reg w)"
  "test_func (test_reg (refill l w)) = test_func (test_reg w)"
  "current_location (test_reg (refill l w)) = current_location (test_reg w)"
  "main_ms (test_reg (refill l w)) = main_ms (test_reg w)"
  "cout (refill l w) = cout w"
  "clock (refill l w) = clock w"
  "ticks (refill l w) = ticks w"
  by (simp_all add: refill_def fill_infos_def)

lemma refill_record_and_put:
  "record_and_put res message (refill l w) = on_world (refill l) (record_and_put res message w)"
  by (simp add: record_and_put_eq on_world_simps refill_simps) (simp add: refill_def fill_infos_def)

lemma refill_assert:
  "assert ops type val val2 location (refill l w) =
     on_world (refill l) (assert ops type val val2 location w)"
proof -
  have "(refill l w)\<lparr>test_reg := (test_reg (refill l w))\<lparr>current_location := location\<rparr>\<rparr>
        = refill l (w\<lparr>test_reg := (test_reg w)\<lparr>current_location := location\<rparr>\<rparr>)"
    by (simp add: refill_def fill_infos_def)
  then show ?thesis
    by (cases type) (simp_all add: assert_def Let_def refill_record_and_put on_world_simps)
qed

lemma refill_summary: "summary (refill l w) = refill l (summary w)"
  by (simp add: summary_def since_time_def now_def print_def refill_def fill_infos_def)

lemma refill_assert_rc:
  "assert_rc location (refill l w) = on_world (refill l) (assert_rc location w)"
proof (cases "rc (test_reg w) <s 0")
  case True
  then have "rc (test_reg (refill l w)) <s 0" by (simp add: refill_simps)
  from assert_rc_negative [OF this] assert_rc_negative [OF True] show ?thesis
    by (simp add: on_world_simps refill_simps) (simp add: refill_def fill_infos_def)
next
  case False
  then show ?thesis by (simp add: assert_rc_def on_world_simps refill_simps)
qed

lemma refill_ALLOC: "ALLOC location (refill l w) = on_world (refill l) (ALLOC location w)"
proof (cases "rc (test_reg w) <s 0")
  case True
  then have "rc (test_reg (refill l w)) <s 0" by (simp add: refill_simps)
  from assert_rc_negative [OF this] assert_rc_negative [OF True] show ?thesis
    by (simp add: ALLOC_def and_then_def on_world_simps refill_simps)
      (simp add: refill_def fill_infos_def)
next
  case False
  then show ?thesis
    by (simp add: ALLOC_def assert_rc_def and_then_def on_world_simps refill_simps)
      (simp add: refill_def fill_infos_def)
qed

lemma refill_DEALLOC: "DEALLOC location (refill l w) = on_world (refill l) (DEALLOC location w)"
proof -
  have "(refill l w)\<lparr>test_reg := (test_reg (refill l w))\<lparr>rc := rc (test_reg w) - 1\<rparr>\<rparr>
        = refill l (w\<lparr>test_reg := (test_reg w)\<lparr>rc := rc (test_reg w) - 1\<rparr>\<rparr>)"
    by (simp add: refill_def fill_infos_def)
  then show ?thesis
    by (simp add: DEALLOC_def refill_assert_rc on_world_simps refill_simps)
qed

lemma refill_test_function: "test_function tst (refill l w) = refill l (test_function tst w)"
  by (simp add: test_function_def refill_def fill_infos_def Let_def)

lemma refill_run_statement:
  "run_statement ops s (refill l w) = on_world (refill l) (run_statement ops s w)"
  by (cases s)
    (simp_all add: assert_eq_def assert_uneq_def assert_gt_def assert_lt_def assert_geq_def
      assert_leq_def refill_assert refill_ALLOC refill_DEALLOC refill_test_function
      on_world_simps)

lemma refill_run_body:
  "run_body ops body (refill l w) = on_world (refill l) (run_body ops body w)"
proof (induction body arbitrary: w)
  case Nil
  then show ?case by (simp add: on_world_simps)
next
  case (Cons s body)
  show ?case
  proof (cases "run_statement ops s w")
    case (Inl h)
    then show ?thesis
      by (cases h) (simp_all add: refill_run_statement and_then_def on_world_simps)
  next
    case (Inr w1)
    then show ?thesis
      by (simp add: refill_run_statement and_then_def on_world_simps Cons.IH)
  qed
qed

lemma refill_test_dtor:
  "test_dtor here (refill l w) = on_world (refill l) (test_dtor here w)"
proof (cases "assert_rc here w")
  case (Inl h)
  then show ?thesis
    by (cases h) (simp_all add: test_dtor_def refill_assert_rc and_then_def on_world_simps)
next
  case (Inr w1)
  then show ?thesis
    by (simp add: test_dtor_def refill_assert_rc and_then_def on_world_simps refill_summary)
qed

lemma refill_set_ms_took: "set_ms_took i d (refill l w) = refill l (set_ms_took i d w)"
  by (simp add: set_ms_took_def refill_def fill_infos_def)

lemma refill_ticks: "(refill l w)\<lparr>ticks := n\<rparr> = refill l (w\<lparr>ticks := n\<rparr>)"
  by (simp add: refill_def)

lemma refill_calculate_time:
  assumes "\<forall>f u. code f (refill l u) = on_world (refill l) (code f u)"
  shows "calculate_time code fn (refill l w) =
     (case calculate_time code fn w of
        Inr (d, w1) \<Rightarrow> Inr (d, refill l w1)
      | Inl (Aborted w1) \<Rightarrow> Inl (Aborted (refill l w1))
      | Inl Undefined \<Rightarrow> Inl Undefined)"
proof (cases fn)
  case Nullptr
  then show ?thesis by (simp add: calculate_time_def now_def)
next
  case (Fn f)
  from assms have
    c: "code f (refill l (w\<lparr>ticks := Suc (ticks w)\<rparr>)) =
          on_world (refill l) (code f (w\<lparr>ticks := Suc (ticks w)\<rparr>))"
    by blast
  show ?thesis
  proof (cases "code f (w\<lparr>ticks := Suc (ticks w)\<rparr>)")
    case (Inl h)
    with Fn c show ?thesis
      by (cases h)
        (simp_all add: calculate_time_def now_def refill_simps refill_ticks on_world_simps)
  next
    case (Inr w2)
    with Fn c show ?thesis
      by (simp add: calculate_time_def now_def refill_simps refill_ticks on_world_simps)
  qed
qed

lemma refill_loop_turn:
  assumes "\<forall>f u. code f (refill l u) = on_world (refill l) (code f u)"
  shows "loop_turn code i (refill l w) = on_world (refill l) (loop_turn code i w)"
proof (cases "func (infos (test_reg w) ! i)")
  case Indeterminate
  then show ?thesis by (simp add: loop_turn_def refill_simps on_world_simps)
next
  case (Known fn)
  show ?thesis
  proof (cases fn)
    case Nullptr
    with Known show ?thesis by (simp add: loop_turn_def refill_simps on_world_simps)
  next
    case (Fn f)
    show ?thesis
    proof (cases "calculate_time code (Fn f) w")
      case (Inl h)
      with Known Fn refill_calculate_time [OF assms, of "Fn f" w] show ?thesis
        by (cases h) (simp_all add: loop_turn_def refill_simps and_then_def on_world_simps)
    next
      case (Inr p)
      obtain d w1 where "p = (d, w1)" by (cases p)
      with Inr Known Fn refill_calculate_time [OF assms, of "Fn f" w] show ?thesis
        by (simp add: loop_turn_def refill_simps and_then_def on_world_simps
            refill_set_ms_took)
    qed
  qed
qed

lemma refill_run_loop:
  "\<forall>f u. code f (refill l u) = on_world (refill l) (code f u) \<Longrightarrow>
   run_loop code n i (refill l w) = on_world (refill l) (run_loop code n i w)"
proof (induction code n i w rule: run_loop.induct)
  case (1 code n i w)
  show ?case
  proof (cases "n \<le> i")
    case True
    then show ?thesis by (simp add: run_loop.simps on_world_simps)
  next
    case False
    show ?thesis
    proof (cases "loop_turn code i w")
      case (Inl h)
      with False refill_loop_turn [OF "1.prems", of i w] show ?thesis
        by (cases h)
          (simp_all add: run_loop.simps [of code n i] and_then_def on_world_simps)
    next
      case (Inr w1)
      with False refill_loop_turn [OF "1.prems", of i w] "1.IH" [OF False "1.prems", of w1]
      show ?thesis
        by (simp add: run_loop.simps [of code n i] and_then_def on_world_simps)
    qed
  qed
qed

lemma refill_run_tests:
  assumes "\<forall>f u. code f (refill l u) = on_world (refill l) (code f u)"
  shows "run_tests code (refill l w) = on_world (refill l) (run_tests code w)"
proof (cases "calculate_time code (test_func (test_reg w)) w")
  case (Inl h)
  with refill_calculate_time [OF assms, of "test_func (test_reg w)" w] show ?thesis
    by (cases h) (simp_all add: run_tests_def refill_simps and_then_def on_world_simps)
next
  case (Inr p)
  obtain d w1 where "p = (d, w1)" by (cases p)
  with Inr refill_calculate_time [OF assms, of "test_func (test_reg w)" w] show ?thesis
    by (simp add: run_tests_def refill_simps and_then_def on_world_simps Let_def
        refill_set_ms_took refill_run_loop [OF assms])
qed

text \<open>
  \<open>current_location\<close> is kept by every operation but \<open>assert\<close>.
\<close>

lemma location_kept_assert_rc:
  "world_of (assert_rc location w) = Some w' \<Longrightarrow>
   current_location (test_reg w') = current_location (test_reg w)"
  by (cases "rc (test_reg w) <s 0")
    (auto simp add: assert_rc_negative world_of_def, simp add: assert_rc_def)

lemma location_kept_ALLOC:
  assumes "world_of (ALLOC location w) = Some w'"
  shows "current_location (test_reg w') = current_location (test_reg w)"
proof (cases "assert_rc location w")
  case (Inl h)
  with assms location_kept_assert_rc [of location w w'] show ?thesis
    by (simp add: ALLOC_def and_then_def)
next
  case (Inr w1)
  with location_kept_assert_rc [of location w w1]
  have "current_location (test_reg w1) = current_location (test_reg w)"
    by (simp add: world_of_def)
  with Inr assms show ?thesis
    by (auto simp add: ALLOC_def and_then_def world_of_def split: if_splits)
qed

lemma location_kept_DEALLOC:
  "world_of (DEALLOC location w) = Some w' \<Longrightarrow>
   current_location (test_reg w') = current_location (test_reg w)"
  using location_kept_assert_rc
    [of location "w\<lparr>test_reg := (test_reg w)\<lparr>rc := rc (test_reg w) - 1\<rparr>\<rparr>" w']
  by (auto simp add: DEALLOC_def world_of_def split: if_splits)

lemma location_kept_test_dtor:
  assumes "world_of (test_dtor here w) = Some w'"
  shows "current_location (test_reg w') = current_location (test_reg w)"
proof (cases "assert_rc here w")
  case (Inl h)
  with assms location_kept_assert_rc [of here w w'] show ?thesis
    by (simp add: test_dtor_def and_then_def)
next
  case (Inr w1)
  with location_kept_assert_rc [of here w w1]
  have "current_location (test_reg w1) = current_location (test_reg w)"
    by (simp add: world_of_def)
  with Inr assms show ?thesis
    by (auto simp add: test_dtor_def and_then_def world_of_def summary_def since_time_def
        now_def print_def)
qed

lemma location_kept_run_tests:
  assumes "\<forall>f u u'. world_of (code f u) = Some u' \<longrightarrow>
             current_location (test_reg u') = current_location (test_reg u)"
    and "world_of (run_tests code w) = Some w'"
  shows "current_location (test_reg w') = current_location (test_reg w)"
proof -
  let ?P = "\<lambda>u. current_location (test_reg u) = current_location (test_reg w)"
  have "?P w'"
  proof (rule run_tests_preserves [where P = ?P and code = code and w = w])
    show "\<forall>f u u'. ?P u \<longrightarrow> world_of (code f u) = Some u' \<longrightarrow> ?P u'"
      using assms(1) by metis
    show "\<forall>u n. ?P u \<longrightarrow> ?P (u\<lparr>ticks := n\<rparr>)" by simp
    show "\<forall>u i d. ?P u \<longrightarrow> ?P (set_ms_took i d u)" by (simp add: set_ms_took_def)
    show "?P w" by simp
    show "world_of (run_tests code w) = Some w'" by (rule assms(2))
  qed
  then show ?thesis .
qed

lemma summary_cout:
  "cout (summary w) = cout w @
     [Text ''\<newline>[SUMMARY]\<newline>'', Text ''File: '',
      Text (loc_file_name (current_location (test_reg w))), Ch (CHR ''\<newline>''),
      Text ''Error/s: '', UInt (errors (test_reg w)), Ch (CHR ''\<newline>''),
      Long (clock w (ticks w) - main_ms (test_reg w)), Text ''ns\<newline>'']"
  by (simp add: summary_def since_time_def now_def print_def)

lemma assert_sets_location:
  "\<exists>w'. assert ops type val val2 location w = Inr w' \<and>
        current_location (test_reg w') = location"
  by (cases type) (simp_all add: assert_def Let_def record_and_put_eq)

lemma assert_line:
  assumes "type \<noteq> MemLeak"
  shows "\<exists>w' tag message.
      assert ops type val val2 location w = Inr w' \<and>
      cout w' = cout w @
        [Text tag, Text ''('', Text (loc_file_name location), Text '', '',
         UInt (loc_line location), Text '':'', UInt (loc_column location), Text '':'',
         UInt 0, Text ''ns'', Text '') ['', Text (loc_function_name location),
         Text ''] -> '', Text message, Ch (CHR ''\<newline>'')]"
proof -
  from assert_outcome [OF assms, of ops val val2] obtain res message where
    eq: "\<And>location w. assert ops type val val2 location w =
           record_and_put res message
             (w\<lparr>test_reg := (test_reg w)\<lparr>current_location := location\<rparr>\<rparr>)"
    by blast
  show ?thesis
    by (simp add: eq record_and_put_eq)
qed

lemma and_then_empty_body: "and_then r (run_body ops []) = r"
  by (cases r) (simp_all add: and_then_def)

lemma runner_bodies_keep_location:
  assumes "world_of (run_body int_comparisons (runner_bodies f) u) = Some u'"
  shows "current_location (test_reg u') = current_location (test_reg u)"
proof -
  consider "f = 0" | "f = 1" | "f = 2" | "f \<noteq> 0 \<and> f \<noteq> 1 \<and> f \<noteq> 2" by blast
  then show ?thesis
  proof cases
    case 1
    with assms show ?thesis
      by (auto simp add: runner_bodies_def and_then_def world_of_def test_function_def)
  next
    case 2
    with assms location_kept_ALLOC [of call_site u u'] show ?thesis
      by (simp add: runner_bodies_def and_then_empty_body)
  next
    case 3
    with assms location_kept_DEALLOC [of call_site u u'] show ?thesis
      by (simp add: runner_bodies_def and_then_empty_body)
  next
    case 4
    with assms show ?thesis
      by (simp add: runner_bodies_def world_of_def)
  qed
qed

text \<open>
  Claim C9. The summary prints the file name of \<open>current_location\<close>, and the line of an
  assertion prints the file, line, column and function of the location handed to that
  assertion. \<open>assert\<close> stores its location in \<open>current_location\<close>; no other operation of
  the library changes it (the runner only through the functions it calls), so the summary
  after an assertion names that assertion's call site. The four members that the constructor
  fills through \<open>fill_infos\<close> are read by nothing: filling them from any other location
  changes no result and no output of the summary, of a library call, of the destructor or of
  the runner, and is carried through unchanged. When no assertion has run, \<open>current_location\<close>
  is the default-constructed location and the summary prints its file name.
\<close>

theorem summary_reads_current_location:
  "cout (summary w) = cout w @
     [Text ''\<newline>[SUMMARY]\<newline>'', Text ''File: '',
      Text (loc_file_name (current_location (test_reg w))), Ch (CHR ''\<newline>''),
      Text ''Error/s: '', UInt (errors (test_reg w)), Ch (CHR ''\<newline>''),
      Long (clock w (ticks w) - main_ms (test_reg w)), Text ''ns\<newline>''] \<and>
   (\<exists>w'. assert ops type val val2 location w = Inr w' \<and>
         current_location (test_reg w') = location \<and>
         cout (summary w') = cout w' @
           [Text ''\<newline>[SUMMARY]\<newline>'', Text ''File: '',
            Text (loc_file_name location), Ch (CHR ''\<newline>''),
            Text ''Error/s: '', UInt (errors (test_reg w')), Ch (CHR ''\<newline>''),
            Long (clock w' (ticks w') - main_ms (test_reg w')), Text ''ns\<newline>'']) \<and>
   (type \<noteq> MemLeak \<longrightarrow>
      (\<exists>w' tag message.
         assert ops type val val2 location w = Inr w' \<and>
         cout w' = cout w @
           [Text tag, Text ''('', Text (loc_file_name location), Text '', '',
            UInt (loc_line location), Text '':'', UInt (loc_column location), Text '':'',
            UInt 0, Text ''ns'', Text '') ['', Text (loc_function_name location),
            Text ''] -> '', Text message, Ch (CHR ''\<newline>'')])) \<and>
   current_location (test_reg (summary w)) = current_location (test_reg w) \<and>
   current_location (test_reg (test_function tst w)) = current_location (test_reg w) \<and>
   (world_of (ALLOC location w) = Some w' \<longrightarrow>
      current_location (test_reg w') = current_location (test_reg w)) \<and>
   (world_of (DEALLOC location w) = Some w' \<longrightarrow>
      current_location (test_reg w') = current_location (test_reg w)) \<and>
   (world_of (test_dtor here w) = Some w' \<longrightarrow>
      current_location (test_reg w') = current_location (test_reg w)) \<and>
   ((\<forall>f u u'. world_of (code f u) = Some u' \<longrightarrow>
        current_location (test_reg u') = current_location (test_reg u)) \<and>
    world_of (run_tests code w) = Some w' \<longrightarrow>
      current_location (test_reg w') = current_location (test_reg w)) \<and>
   summary (refill l w) = refill l (summary w) \<and>
   run_statement ops s (refill l w) = on_world (refill l) (run_statement ops s w) \<and>
   test_dtor here (refill l w) = on_world (refill l) (test_dtor here w) \<and>
   run_tests (\<lambda>f. run_body ops (bodies f)) (refill l w) =
     on_world (refill l) (run_tests (\<lambda>f. run_body ops (bodies f)) w) \<and>
   current_location (test_reg (TEST case_name here clk)) = default_location \<and>
   cout (summary (TEST case_name here clk)) =
     [Text ''\<newline>[SUMMARY]\<newline>'', Text ''File: '',
      Text (loc_file_name default_location), Ch (CHR ''\<newline>''),
      Text ''Error/s: '', UInt 0, Ch (CHR ''\<newline>''),
      Long (clk 1 - clk 0), Text ''ns\<newline>'']"
proof -
  have f2: "\<exists>w'. assert ops type val val2 location w = Inr w' \<and>
         current_location (test_reg w') = location \<and>
         cout (summary w') = cout w' @
           [Text ''\<newline>[SUMMARY]\<newline>'', Text ''File: '',
            Text (loc_file_name location), Ch (CHR ''\<newline>''),
            Text ''Error/s: '', UInt (errors (test_reg w')), Ch (CHR ''\<newline>''),
            Long (clock w' (ticks w') - main_ms (test_reg w')), Text ''ns\<newline>'']"
    using assert_sets_location [of ops type val val2 location w]
    by (auto simp add: summary_cout)
  have f3: "type \<noteq> MemLeak \<longrightarrow>
      (\<exists>w' tag message.
         assert ops type val val2 location w = Inr w' \<and>
         cout w' = cout w @
           [Text tag, Text ''('', Text (loc_file_name location), Text '', '',
            UInt (loc_line location), Text '':'', UInt (loc_column location), Text '':'',
            UInt 0, Text ''ns'', Text '') ['', Text (loc_function_name location),
            Text ''] -> '', Text message, Ch (CHR ''\<newline>'')])"
    using assert_line [of type ops val val2 location w] by simp
  have f4: "current_location (test_reg (summary w)) = current_location (test_reg w)"
    by (simp add: summary_def since_time_def now_def print_def)
  have f5:
    "current_location (test_reg (test_function tst w)) = current_location (test_reg w)"
    by (simp add: test_function_def Let_def)
  have f9: "(\<forall>f u u'. world_of (code f u) = Some u' \<longrightarrow>
        current_location (test_reg u') = current_location (test_reg u)) \<and>
    world_of (run_tests code w) = Some w' \<longrightarrow>
      current_location (test_reg w') = current_location (test_reg w)"
    using location_kept_run_tests [of code w w'] by blast
  have f13: "run_tests (\<lambda>f. run_body ops (bodies f)) (refill l w) =
     on_world (refill l) (run_tests (\<lambda>f. run_body ops (bodies f)) w)"
    by (rule refill_run_tests) (simp add: refill_run_body)
  have f15: "cout (summary (TEST case_name here clk)) =
     [Text ''\<newline>[SUMMARY]\<newline>'', Text ''File: '',
      Text (loc_file_name default_location), Ch (CHR ''\<newline>''),
      Text ''Error/s: '', UInt 0, Ch (CHR ''\<newline>''),
      Long (clk 1 - clk 0), Text ''ns\<newline>'']"
    by (simp add: summary_cout TEST_def new_test_simps)
  have f14: "current_location (test_reg (TEST case_name here clk)) = default_location"
    by (simp add: TEST_def new_test_simps)
  show ?thesis
    by (intro conjI summary_cout f2 f3 f4 f5 f9 f13 f14 f15 refill_summary
        refill_run_statement refill_test_dtor impI location_kept_ALLOC location_kept_DEALLOC
        location_kept_test_dtor)
qed

theorem summary_reads_current_location_witness:
  "Gt \<noteq> MemLeak \<and>
   (\<exists>w' tag message.
      assert int_comparisons Gt 1 5 call_site example_case = Inr w' \<and>
      cout w' = cout example_case @
        [Text tag, Text ''('', Text (loc_file_name call_site), Text '', '',
         UInt (loc_line call_site), Text '':'', UInt (loc_column call_site), Text '':'',
         UInt 0, Text ''ns'', Text '') ['', Text (loc_function_name call_site),
         Text ''] -> '', Text message, Ch (CHR ''\<newline>'')]) \<and>
   (\<exists>w'. world_of (ALLOC call_site example_case) = Some w' \<and>
         current_location (test_reg w') = current_location (test_reg example_case)) \<and>
   (\<exists>w'. world_of (DEALLOC call_site example_case) = Some w' \<and>
         current_location (test_reg w') = current_location (test_reg example_case)) \<and>
   (\<exists>w'. world_of (test_dtor header_site example_case) = Some w' \<and>
         current_location (test_reg w') = current_location (test_reg example_case)) \<and>
   (\<exists>w'. world_of (run_tests (\<lambda>f. run_body int_comparisons (runner_bodies f)) example_case)
           = Some w' \<and>
         current_location (test_reg w') = current_location (test_reg example_case))"
proof -
  note inst = summary_reads_current_location
    [where w = example_case and ops = int_comparisons and location = call_site
      and here = header_site and code = "\<lambda>f. run_body int_comparisons (runner_bodies f)"]
  have a: "Gt \<noteq> MemLeak" by simp
  with inst [where type = Gt and val = 1 and ?val2.0 = 5] have
    b: "\<exists>w' tag message.
      assert int_comparisons Gt 1 5 call_site example_case = Inr w' \<and>
      cout w' = cout example_case @
        [Text tag, Text ''('', Text (loc_file_name call_site), Text '', '',
         UInt (loc_line call_site), Text '':'', UInt (loc_column call_site), Text '':'',
         UInt 0, Text ''ns'', Text '') ['', Text (loc_function_name call_site),
         Text ''] -> '', Text message, Ch (CHR ''\<newline>'')]"
    by simp
  obtain w1 where w1: "world_of (ALLOC call_site example_case) = Some w1"
    by (simp add: ALLOC_def assert_rc_def and_then_def world_of_def example_case_simps
        new_test_simps)
  obtain w2 where w2: "world_of (DEALLOC call_site example_case) = Some w2"
    by (simp add: DEALLOC_example world_of_def)
  obtain w3 where w3: "world_of (test_dtor header_site example_case) = Some w3"
    by (simp add: test_dtor_def assert_rc_def and_then_def world_of_def example_case_simps
        new_test_simps)
  obtain w4 where w4:
    "world_of (run_tests (\<lambda>f. run_body int_comparisons (runner_bodies f)) example_case)
       = Some w4"
    by (simp add: runner_result world_of_def)
  have hyp: "\<forall>f u u'. world_of (run_body int_comparisons (runner_bodies f) u) = Some u' \<longrightarrow>
      current_location (test_reg u') = current_location (test_reg u)"
    using runner_bodies_keep_location by blast
  from w1 inst [where w' = w1]
  have c: "current_location (test_reg w1) = current_location (test_reg example_case)" by simp
  from w2 inst [where w' = w2]
  have d: "current_location (test_reg w2) = current_location (test_reg example_case)" by simp
  from w3 inst [where w' = w3]
  have e: "current_location (test_reg w3) = current_location (test_reg example_case)" by simp
  from w4 hyp inst [where w' = w4]
  have f: "current_location (test_reg w4) = current_location (test_reg example_case)" by simp
  from a b w1 c w2 d w3 e w4 f show ?thesis by blast
qed

end
